theory Spec2Isabelle
  imports Complex_Main
begin

section \<open>The flex GPU transformer of ngraph/transformers/flexgputransform.py\<close>

text \<open>
  Python floats are modelled as reals (no rounding of the arithmetic, no infinities and
  no NaN), Python integers as \<open>int\<close>. Every \<open>raise\<close> of the source is a value of
  \<open>error\<close>; a function that can raise returns \<open>error + 'a\<close> with \<open>Inl\<close> the error.
\<close>

subsection \<open>Errors and values\<close>

datatype error =
    ZeroDivisionError
  | ValueError
  | IndexError
  | AttributeError
  | NotImplementedError
  | FlexAllocationError
  | DuplicateNameError

text \<open>
  The right-hand side of a tensor assignment: a Python scalar (\<open>int\<close> or \<open>float\<close>, the
  first branch of the \<open>isinstance\<close> test of \<open>__setitem__\<close>) or a numpy array.
\<close>

datatype pyvalue = Scalar real | NdArray "real list"

text \<open>Python's \<open>2**bits\<close> on integers: a float below one for a negative exponent.\<close>

definition py_pow2 :: "int \<Rightarrow> real" where
  "py_pow2 b = (if 0 \<le> b then 2 ^ nat b else 1 / 2 ^ nat (- b))"

text \<open>Python's \<open>int(x)\<close> on a float: truncation towards zero.\<close>

definition py_int :: "real \<Rightarrow> int" where
  "py_int x = (if 0 \<le> x then \<lfloor>x\<rfloor> else \<lceil>x\<rceil>)"

subsection \<open>Flex entries, the flex manager, kernels\<close>

text \<open>
  \<open>GPUFlex\<close>: a flex storage format, with the two attributes the source reads
  (\<open>dtype.storage_bits\<close> and \<open>dtype.storage_dtype\<close>). Any other dtype is \<open>OtherDtype\<close>.
\<close>

record GPUFlex =
  storage_bits :: int
  storage_dtype :: string

datatype dtype = GPUFlex_dtype GPUFlex | OtherDtype string

text \<open>Python objects that are shared and mutated are held in a store and named by reference.\<close>

type_synonym ref = nat

text \<open>
  Modelled from the spec: the class FlexEntry of ngraph.flex, which is not part of the
  sources. Its fields are the ones the source reads (\<open>flex_id\<close>, \<open>scale\<close>, \<open>dtype\<close>) and
  the two the spec names (a history of recent maximum absolute values and the step index
  of the last update).
\<close>

record FlexEntry =
  flex_id :: nat
  scale :: real
  dtype :: GPUFlex
  history :: "int list"
  step_index :: int

text \<open>
  Modelled from the spec: the state of GPUFlexManager (ngraph.flex, not part of the
  sources): the counter \<open>autoflex_count\<close> that the source increments, the entries by
  reference, the registry that maps the name of a buffer to its entry, the fixed-point
  and verbose flags given to the constructor, and whether \<open>allocate()\<close> has run.
\<close>

record GPUFlexManager =
  autoflex_count :: int
  entries :: "ref \<Rightarrow> FlexEntry"
  registry :: "(string \<times> ref) list"
  allocated :: bool
  manager_fixed_point :: bool
  manager_verbose :: bool

text \<open>\<open>FlexScaleDescription\<close>: a kernel argument slot bound to a flex entry, with its role.\<close>

record FlexScaleDescription =
  flex_entry :: ref
  is_output :: bool

text \<open>
  An element of \<open>kernel.params\<close>: a scale descriptor, a pointer descriptor
  (\<open>FlexPtrDescription\<close>), a float (a bound scale) or any other argument.
\<close>

datatype param =
    FlexScaleParam FlexScaleDescription
  | FlexPtrParam ref
  | FloatParam real
  | OtherParam string

text \<open>
  The kernel classes the source tells apart with \<open>isinstance\<close>: \<open>ElementWiseKernel\<close>,
  the members of \<open>non_flex_kernels\<close> (\<open>DimShuffleKernel\<close>), and every other kernel (the
  flex convolution and fill kernels, which bring their own \<open>output_flex_ids\<close>). An
  attribute that \<open>compile_all\<close> creates is \<open>None\<close> until it is set.
\<close>

datatype kernel_class = ElementWiseKernel | DimShuffleKernel | OtherKernel

record kernel =
  kernel_class :: kernel_class
  kernel_name :: string
  params :: "param list"
  output_flex_ids :: "nat list option"
  flex_scale_info :: "(nat \<times> FlexScaleDescription) list option"

definition non_flex_kernels :: "kernel_class list" where
  "non_flex_kernels = [DimShuffleKernel]"

record FlexGPUKernelGroup =
  group_name :: string
  kernels :: "kernel list"
  group_output_flex_ids :: "nat list option"

subsection \<open>The transformer and the calls that leave the file\<close>

text \<open>
  Every call from the source into code that is not part of it, and every advance of
  the autoflex counter, is recorded, in program order, in the ghost field \<open>trace\<close>
  of the transformer.
\<close>

datatype event =
    EntryManageBefore ref pyvalue
  | EntryManageAfter ref int int
  | ManageBefore string
  | BindFlexScales string
  | Execute string
  | ManageAfter string
  | AdvanceAutoflexCount
  | SaveDiagnosticData
  | BaseTransformOrderedOps string
  | Allocate
  | MakeFlexEntry string

datatype graph_pass = ClearTensorDescriptions | FlexDtypePass | FlexDECPass

record FlexGPUTransformer =
  fixed_point :: bool
  graph_passes :: "graph_pass list"
  flex_manager :: GPUFlexManager
  trace :: "event list"

text \<open>
  The behaviour of the autoflex package and of the base classes of
  ngraph.transformers.gputransform is a parameter of the model: the scale adaptation of
  an entry around an assignment, the manager's hooks around a kernel, the manager's
  constructor and diagnostic sink, the initial contents of a new entry, the execution of
  a kernel, the scale binding of the
  kernels other than \<open>ElementWiseKernel\<close> (which rewrites their \<open>params\<close>),
  \<open>FlexPtrDescription.bind_ptr\<close>, the
  conversion of a float to the integer storage format, and the base class's
  \<open>compile_all\<close> and \<open>transform_ordered_ops\<close>.
\<close>

record external =
  entry_manage_before_computation :: "pyvalue \<Rightarrow> FlexEntry \<Rightarrow> FlexEntry"
  entry_manage_after_computation :: "int \<Rightarrow> int \<Rightarrow> FlexEntry \<Rightarrow> FlexEntry"
  manage_before_computation :: "kernel \<Rightarrow> GPUFlexManager \<Rightarrow> GPUFlexManager"
  manage_after_computation :: "kernel \<Rightarrow> GPUFlexManager \<Rightarrow> GPUFlexManager"
  save_diagnostic_data :: "GPUFlexManager \<Rightarrow> GPUFlexManager"
  new_flex_manager :: "bool \<Rightarrow> bool \<Rightarrow> GPUFlexManager"
  new_flex_entry :: "string \<Rightarrow> ref \<Rightarrow> FlexEntry"
  execute :: "kernel \<Rightarrow> GPUFlexManager \<Rightarrow> GPUFlexManager"
  kernel_bind_flex_scales :: "kernel \<Rightarrow> GPUFlexManager \<Rightarrow> param list"
  bind_ptr :: "param list \<Rightarrow> param list"
  to_storage :: "real \<Rightarrow> int"
  base_compile_all :: "FlexGPUKernelGroup \<Rightarrow> FlexGPUKernelGroup"
  base_transform_ordered_ops ::
    "string list \<Rightarrow> string \<Rightarrow> GPUFlexManager \<Rightarrow> string \<times> GPUFlexManager"

subsection \<open>FlexGPUDeviceTensor\<close>

text \<open>
  A device tensor: the flex entry of its device buffer (\<open>self.device_buffer.flex_entry\<close>,
  a reference into the manager's registry) and the contents of the buffer, a list of
  integers of the storage format.
\<close>

record FlexGPUDeviceTensor =
  device_buffer_flex_entry :: ref
  device_data :: "int list"

text \<open>
  Modelled from the spec: \<open>GPUDeviceTensor.__setitem__\<close> of the base class
  (ngraph.transformers.gputransform, not part of the sources), the step "store as
  integer" of a write. \<open>key\<close> is the list of positions an index expression selects;
  a position outside the buffer raises \<open>IndexError\<close>. A scalar fills every selected
  position, an array is stored position by position (\<open>ValueError\<close> when the shapes
  differ), each value converted to an integer by the conversion given as parameter.
\<close>

definition GPUDeviceTensor_setitem ::
  "(real \<Rightarrow> int) \<Rightarrow> nat list \<Rightarrow> pyvalue \<Rightarrow> FlexGPUDeviceTensor \<Rightarrow> error + FlexGPUDeviceTensor" where
  "GPUDeviceTensor_setitem conv key val self =
     (if list_ex (\<lambda>i. length (device_data self) \<le> i) key then Inl IndexError
      else case val of
        Scalar v \<Rightarrow>
          Inr (self\<lparr>device_data := fold (\<lambda>i d. d[i := conv v]) key (device_data self)\<rparr>)
      | NdArray vs \<Rightarrow>
          if length vs \<noteq> length key then Inl ValueError
          else Inr (self\<lparr>device_data :=
                 fold (\<lambda>(i, v) d. d[i := conv v]) (zip key vs) (device_data self)\<rparr>))"

text \<open>
  Modelled from the spec: \<open>GPUDeviceTensor.get\<close> of the base class (not part of the
  sources): the device integers, copied to a host array.
\<close>

definition GPUDeviceTensor_get :: "FlexGPUDeviceTensor \<Rightarrow> real list" where
  "GPUDeviceTensor_get self = map real_of_int (device_data self)"

text \<open>The two properties of the source: \<open>self.flex_entry\<close> and \<open>self.scale\<close>.\<close>

definition tensor_flex_entry :: "FlexGPUDeviceTensor \<Rightarrow> FlexGPUTransformer \<Rightarrow> FlexEntry" where
  "tensor_flex_entry self tr = entries (flex_manager tr) (device_buffer_flex_entry self)"

definition tensor_scale :: "FlexGPUDeviceTensor \<Rightarrow> FlexGPUTransformer \<Rightarrow> real" where
  "tensor_scale self tr = scale (tensor_flex_entry self tr)"

text \<open>
  \<open>get\<close>: the base class's read, times the scale. The transformer is returned as it
  was given: the method touches neither the entry nor the manager.
\<close>

definition FlexGPUDeviceTensor_get ::
  "FlexGPUDeviceTensor \<Rightarrow> FlexGPUTransformer \<Rightarrow> real list \<times> FlexGPUTransformer" where
  "FlexGPUDeviceTensor_get self tr =
     (let tensor = GPUDeviceTensor_get self;
          tensor = map (\<lambda>x. x * tensor_scale self tr) tensor
      in (tensor, tr))"

text \<open>The two hooks of the entry, applied to the entry in the store and recorded.\<close>

definition FlexEntry_manage_before_computation ::
  "external \<Rightarrow> ref \<Rightarrow> pyvalue \<Rightarrow> FlexGPUTransformer \<Rightarrow> FlexGPUTransformer" where
  "FlexEntry_manage_before_computation ext r val tr =
     tr\<lparr>flex_manager := (flex_manager tr)\<lparr>entries := (entries (flex_manager tr))
            (r := entry_manage_before_computation ext val (entries (flex_manager tr) r))\<rparr>,
        trace := trace tr @ [EntryManageBefore r val]\<rparr>"

definition FlexEntry_manage_after_computation ::
  "external \<Rightarrow> ref \<Rightarrow> int \<Rightarrow> int \<Rightarrow> FlexGPUTransformer \<Rightarrow> FlexGPUTransformer" where
  "FlexEntry_manage_after_computation ext r maxabs count tr =
     tr\<lparr>flex_manager := (flex_manager tr)\<lparr>entries := (entries (flex_manager tr))
            (r := entry_manage_after_computation ext maxabs count (entries (flex_manager tr) r))\<rparr>,
        trace := trace tr @ [EntryManageAfter r maxabs count]\<rparr>"

text \<open>
  \<open>value / self.scale\<close>, a true division (\<open>from __future__ import division\<close>). A zero
  scale raises \<open>ZeroDivisionError\<close> for a Python scalar; for an array numpy yields
  infinities, which the reals do not have, so the model stops there as well.
\<close>

definition py_truediv :: "pyvalue \<Rightarrow> real \<Rightarrow> error + pyvalue" where
  "py_truediv val s =
     (if s = 0 then Inl ZeroDivisionError
      else Inr (case val of
                  Scalar v \<Rightarrow> Scalar (v / s)
                | NdArray vs \<Rightarrow> NdArray (map (\<lambda>v. v / s) vs)))"

text \<open>
  The overflow check of \<open>__setitem__\<close>: \<open>min\<close>/\<open>max\<close> by the sign for a scalar, the two
  masked assignments, in the source's order, for an array.
\<close>

definition clip :: "real \<Rightarrow> real \<Rightarrow> pyvalue \<Rightarrow> pyvalue" where
  "clip minval maxval val =
     (case val of
        Scalar v \<Rightarrow> Scalar (if v \<ge> 0 then min v maxval else max v minval)
      | NdArray vs \<Rightarrow>
          NdArray (map (\<lambda>v. if v < minval then minval else v)
                    (map (\<lambda>v. if v > maxval then maxval else v) vs)))"

text \<open>\<open>np.amax(np.absolute(value))\<close>; numpy raises \<open>ValueError\<close> on an empty array.\<close>

definition amax_absolute :: "pyvalue \<Rightarrow> error + real" where
  "amax_absolute val =
     (case val of
        Scalar v \<Rightarrow> Inr \<bar>v\<bar>
      | NdArray vs \<Rightarrow>
          (case vs of [] \<Rightarrow> Inl ValueError
           | v # rest \<Rightarrow> Inr (fold (\<lambda>x m. max m \<bar>x\<bar>) rest \<bar>v\<bar>)))"

definition FlexGPUDeviceTensor_setitem ::
  "external \<Rightarrow> nat list \<Rightarrow> pyvalue \<Rightarrow> FlexGPUDeviceTensor \<Rightarrow> FlexGPUTransformer
     \<Rightarrow> error + (FlexGPUDeviceTensor \<times> FlexGPUTransformer)" where
  "FlexGPUDeviceTensor_setitem ext key val self tr =
     (let tr1 = FlexEntry_manage_before_computation ext (device_buffer_flex_entry self) val tr
      in case py_truediv val (tensor_scale self tr1) of
           Inl e \<Rightarrow> Inl e
         | Inr val1 \<Rightarrow>
             (let bits = storage_bits (dtype (tensor_flex_entry self tr1)) - 1;
                  maxval = py_pow2 bits - 1;
                  minval = - py_pow2 bits;
                  val2 = clip minval maxval val1
              in case GPUDeviceTensor_setitem (to_storage ext) key val2 self of
                   Inl e \<Rightarrow> Inl e
                 | Inr self1 \<Rightarrow>
                     (case amax_absolute val2 of
                        Inl e \<Rightarrow> Inl e
                      | Inr m \<Rightarrow>
                          Inr (self1,
                               FlexEntry_manage_after_computation ext
                                 (device_buffer_flex_entry self) (py_int m)
                                 (autoflex_count (flex_manager tr1)) tr1))))"

subsection \<open>Scale binding of element-wise kernels\<close>

text \<open>
  \<open>_ew_bind_flex_scales\<close>: for every recorded pair of a slot index and a descriptor, the
  slot is overwritten with the scale of the descriptor's entry, or with its reciprocal
  \<open>1.0 / scale\<close> for an output. The division raises on a zero scale, the list
  assignment on an index out of range.
\<close>

fun ew_bind_loop ::
  "(ref \<Rightarrow> FlexEntry) \<Rightarrow> (nat \<times> FlexScaleDescription) list \<Rightarrow> param list \<Rightarrow> error + param list" where
  "ew_bind_loop es [] ps = Inr ps"
| "ew_bind_loop es ((index, flex_scale_desc) # rest) ps =
     (let scale0 = scale (es (flex_entry flex_scale_desc))
      in if is_output flex_scale_desc \<and> scale0 = 0 then Inl ZeroDivisionError
         else let scale1 = (if is_output flex_scale_desc then 1 / scale0 else scale0)
              in if index < length ps then ew_bind_loop es rest (ps[index := FloatParam scale1])
                 else Inl IndexError)"

definition ew_bind_flex_scales :: "external \<Rightarrow> kernel \<Rightarrow> GPUFlexManager \<Rightarrow> error + kernel" where
  "ew_bind_flex_scales ext k m =
     (case flex_scale_info k of
        None \<Rightarrow> Inl AttributeError
      | Some info \<Rightarrow>
          (case ew_bind_loop (entries m) info (params k) of
             Inl e \<Rightarrow> Inl e
           | Inr ps \<Rightarrow> Inr (k\<lparr>params := bind_ptr ext ps\<rparr>)))"

text \<open>
  \<open>kernel.bind_flex_scales()\<close>: the method attached to \<open>ElementWiseKernel\<close> above, the
  kernel's own method for every other class.
\<close>

definition bind_flex_scales :: "external \<Rightarrow> kernel \<Rightarrow> GPUFlexManager \<Rightarrow> error + kernel" where
  "bind_flex_scales ext k m =
     (if kernel_class k = ElementWiseKernel then ew_bind_flex_scales ext k m
      else Inr (k\<lparr>params := kernel_bind_flex_scales ext k m\<rparr>))"

subsection \<open>Compilation of a kernel group\<close>

text \<open>
  The inner loop of \<open>_create_output_flex_ids\<close>: the flex ids of the parameters that are
  scale descriptors with \<open>is_output\<close> set, in the order of the parameters.
\<close>

fun kernel_output_ids :: "(ref \<Rightarrow> FlexEntry) \<Rightarrow> param list \<Rightarrow> nat list" where
  "kernel_output_ids es [] = []"
| "kernel_output_ids es (p # ps) =
     (case p of
        FlexScaleParam d \<Rightarrow> (if is_output d then [flex_id (es (flex_entry d))] else [])
      | _ \<Rightarrow> []) @ kernel_output_ids es ps"

text \<open>
  The outer loop: an element-wise kernel gets the list computed from its parameters, a
  kernel of \<open>non_flex_kernels\<close> the empty list, any other kernel keeps the attribute it
  has; reading a missing attribute raises \<open>AttributeError\<close>. The result is the kernels
  and the concatenation of their lists.
\<close>

fun create_output_flex_ids_loop ::
  "(ref \<Rightarrow> FlexEntry) \<Rightarrow> kernel list \<Rightarrow> error + (kernel list \<times> nat list)" where
  "create_output_flex_ids_loop es [] = Inr ([], [])"
| "create_output_flex_ids_loop es (k # ks) =
     (let k1 = (if kernel_class k = ElementWiseKernel
                then k\<lparr>output_flex_ids := Some (kernel_output_ids es (params k))\<rparr>
                else if kernel_class k \<in> set non_flex_kernels
                then k\<lparr>output_flex_ids := Some []\<rparr>
                else k)
      in case output_flex_ids k1 of
           None \<Rightarrow> Inl AttributeError
         | Some ids \<Rightarrow>
             (case create_output_flex_ids_loop es ks of
                Inl e \<Rightarrow> Inl e
              | Inr (ks1, group_output_ids) \<Rightarrow> Inr (k1 # ks1, ids @ group_output_ids)))"

definition create_output_flex_ids ::
  "FlexGPUKernelGroup \<Rightarrow> FlexGPUTransformer \<Rightarrow> error + FlexGPUKernelGroup" where
  "create_output_flex_ids self tr =
     (case create_output_flex_ids_loop (entries (flex_manager tr)) (kernels self) of
        Inl e \<Rightarrow> Inl e
      | Inr (ks, group_output_ids) \<Rightarrow>
          Inr (self\<lparr>kernels := ks, group_output_flex_ids := Some group_output_ids\<rparr>))"

text \<open>
  \<open>_create_ew_flex_scale_info\<close>: the pairs \<open>(i, p)\<close> of \<open>enumerate(kernel.params)\<close> whose
  \<open>p\<close> is a scale descriptor.
\<close>

fun scale_info_from :: "nat \<Rightarrow> param list \<Rightarrow> (nat \<times> FlexScaleDescription) list" where
  "scale_info_from i [] = []"
| "scale_info_from i (p # ps) =
     (case p of FlexScaleParam d \<Rightarrow> [(i, d)] | _ \<Rightarrow> []) @ scale_info_from (Suc i) ps"

definition create_ew_flex_scale_info :: "FlexGPUKernelGroup \<Rightarrow> FlexGPUKernelGroup" where
  "create_ew_flex_scale_info self =
     self\<lparr>kernels := map (\<lambda>k. if kernel_class k = ElementWiseKernel
                               then k\<lparr>flex_scale_info := Some (scale_info_from 0 (params k))\<rparr>
                               else k) (kernels self)\<rparr>"

definition compile_all ::
  "external \<Rightarrow> FlexGPUKernelGroup \<Rightarrow> FlexGPUTransformer \<Rightarrow> error + FlexGPUKernelGroup" where
  "compile_all ext self tr =
     (case create_output_flex_ids (base_compile_all ext self) tr of
        Inl e \<Rightarrow> Inl e
      | Inr self1 \<Rightarrow> Inr (create_ew_flex_scale_info self1))"

subsection \<open>The flex manager's entry points\<close>



text \<open>
  Modelled from the spec: \<open>GPUFlexManager.manage_before_computation(kernel)\<close> (not part
  of the sources), an execution entry point: it fails before \<open>allocate()\<close>, and
  otherwise adjusts the scales as the autoflex package does (a parameter).
\<close>

definition GPUFlexManager_manage_before_computation ::
  "external \<Rightarrow> kernel \<Rightarrow> FlexGPUTransformer \<Rightarrow> error + FlexGPUTransformer" where
  "GPUFlexManager_manage_before_computation ext k tr =
     (if \<not> allocated (flex_manager tr) then Inl FlexAllocationError
      else Inr (tr\<lparr>flex_manager := manage_before_computation ext k (flex_manager tr),
                   trace := trace tr @ [ManageBefore (kernel_name k)]\<rparr>))"

text \<open>
  Modelled from the spec: \<open>GPUFlexManager.manage_after_computation(kernel)\<close> (not part
  of the sources), an execution entry point as well: it fails before \<open>allocate()\<close>, and
  otherwise captures the magnitudes as the autoflex package does (a parameter).
\<close>

definition GPUFlexManager_manage_after_computation ::
  "external \<Rightarrow> kernel \<Rightarrow> FlexGPUTransformer \<Rightarrow> error + FlexGPUTransformer" where
  "GPUFlexManager_manage_after_computation ext k tr =
     (if \<not> allocated (flex_manager tr) then Inl FlexAllocationError
      else Inr (tr\<lparr>flex_manager := manage_after_computation ext k (flex_manager tr),
                   trace := trace tr @ [ManageAfter (kernel_name k)]\<rparr>))"

text \<open>
  Modelled from the spec: \<open>GPUFlexManager.save_diagnostic_data()\<close> (not part of the
  sources): it appends to the diagnostic sink when one is configured and never fails.
\<close>

definition GPUFlexManager_save_diagnostic_data ::
  "external \<Rightarrow> FlexGPUTransformer \<Rightarrow> FlexGPUTransformer" where
  "GPUFlexManager_save_diagnostic_data ext tr =
     tr\<lparr>flex_manager := save_diagnostic_data ext (flex_manager tr),
        trace := trace tr @ [SaveDiagnosticData]\<rparr>"

subsection \<open>Execution of a kernel group\<close>

definition setup_kernel_execute ::
  "external \<Rightarrow> kernel \<Rightarrow> FlexGPUTransformer \<Rightarrow> error + (kernel \<times> FlexGPUTransformer)" where
  "setup_kernel_execute ext k tr =
     (case GPUFlexManager_manage_before_computation ext k tr of
        Inl e \<Rightarrow> Inl e
      | Inr tr1 \<Rightarrow>
          (case bind_flex_scales ext k (flex_manager tr1) of
             Inl e \<Rightarrow> Inl e
           | Inr k1 \<Rightarrow> Inr (k1, tr1\<lparr>trace := trace tr1 @ [BindFlexScales (kernel_name k)]\<rparr>)))"

definition after_kernel_execute ::
  "external \<Rightarrow> kernel \<Rightarrow> FlexGPUTransformer \<Rightarrow> error + FlexGPUTransformer" where
  "after_kernel_execute ext k tr = GPUFlexManager_manage_after_computation ext k tr"

text \<open>\<open>kernel.execute()\<close>: the launch of the kernel, whose effect is a parameter.\<close>

definition kernel_execute :: "external \<Rightarrow> kernel \<Rightarrow> FlexGPUTransformer \<Rightarrow> FlexGPUTransformer" where
  "kernel_execute ext k tr =
     tr\<lparr>flex_manager := execute ext k (flex_manager tr),
        trace := trace tr @ [Execute (kernel_name k)]\<rparr>"

text \<open>
  Modelled from the spec: \<open>GPUKernelGroup.__call__\<close> of the base class
  (ngraph.transformers.gputransform, not part of the sources): the kernels run in
  compiled order, each between \<open>setup_kernel_execute\<close> and \<open>after_kernel_execute\<close>.
\<close>

fun GPUKernelGroup_call ::
  "external \<Rightarrow> kernel list \<Rightarrow> FlexGPUTransformer \<Rightarrow> error + (kernel list \<times> FlexGPUTransformer)" where
  "GPUKernelGroup_call ext [] tr = Inr ([], tr)"
| "GPUKernelGroup_call ext (k # ks) tr =
     (case setup_kernel_execute ext k tr of
        Inl e \<Rightarrow> Inl e
      | Inr (k1, tr1) \<Rightarrow>
          (case after_kernel_execute ext k1 (kernel_execute ext k1 tr1) of
             Inl e \<Rightarrow> Inl e
           | Inr tr2 \<Rightarrow>
               (case GPUKernelGroup_call ext ks tr2 of
                  Inl e \<Rightarrow> Inl e
                | Inr (ks1, tr3) \<Rightarrow> Inr (k1 # ks1, tr3))))"

text \<open>One \<open>autoflex_count += 1\<close> of \<open>__call__\<close>.\<close>

definition advance_autoflex_count :: "FlexGPUTransformer \<Rightarrow> FlexGPUTransformer" where
  "advance_autoflex_count tr =
     tr\<lparr>flex_manager := (flex_manager tr)\<lparr>autoflex_count := autoflex_count (flex_manager tr) + 1\<rparr>,
        trace := trace tr @ [AdvanceAutoflexCount]\<rparr>"

definition FlexGPUKernelGroup_call ::
  "external \<Rightarrow> FlexGPUKernelGroup \<Rightarrow> FlexGPUTransformer
     \<Rightarrow> error + (FlexGPUKernelGroup \<times> FlexGPUTransformer)" where
  "FlexGPUKernelGroup_call ext self tr =
     (let tr1 = advance_autoflex_count tr;
          tr2 = advance_autoflex_count tr1;
          tr3 = GPUFlexManager_save_diagnostic_data ext tr2
      in case GPUKernelGroup_call ext (kernels self) tr3 of
           Inl e \<Rightarrow> Inl e
         | Inr (ks, tr4) \<Rightarrow> Inr (self\<lparr>kernels := ks\<rparr>, tr4))"

subsection \<open>FlexGPUTransformer\<close>

text \<open>
  \<open>__init__\<close>: the constructor takes the two flags and keyword arguments that it
  ignores; it calls the base class's constructor without arguments, registers the two
  flex passes and creates the flex manager from the two flags. Nothing in it looks at a
  dtype, and nothing in it raises.
\<close>

definition FlexGPUTransformer_init ::
  "external \<Rightarrow> bool \<Rightarrow> bool \<Rightarrow> (string \<times> dtype) list \<Rightarrow> error + FlexGPUTransformer" where
  "FlexGPUTransformer_init ext fixed_point_arg flex_verbose kwargs =
     Inr \<lparr>fixed_point = fixed_point_arg,
          graph_passes = [ClearTensorDescriptions, FlexDtypePass],
          flex_manager = new_flex_manager ext fixed_point_arg flex_verbose,
          trace = []\<rparr>"

definition FlexGPUTransformer_storage_dtype :: "dtype \<Rightarrow> error + string" where
  "FlexGPUTransformer_storage_dtype d =
     (case d of
        GPUFlex_dtype g \<Rightarrow> Inr (storage_dtype g)
      | OtherDtype n \<Rightarrow> Inl NotImplementedError)"





subsection \<open>Notions used to state the properties\<close>

text \<open>The floats of an assigned value, and the pairs of a position and the float assigned to it.\<close>

definition pyvalue_elems :: "pyvalue \<Rightarrow> real list" where
  "pyvalue_elems val = (case val of Scalar v \<Rightarrow> [v] | NdArray vs \<Rightarrow> vs)"

definition assigned :: "nat list \<Rightarrow> pyvalue \<Rightarrow> (nat \<times> real) list" where
  "assigned key val = (case val of Scalar v \<Rightarrow> map (\<lambda>i. (i, v)) key | NdArray vs \<Rightarrow> zip key vs)"

text \<open>A sequence of assignments to one tensor; it stops at the first that raises.\<close>

fun setitem_sequence ::
  "external \<Rightarrow> (nat list \<times> pyvalue) list \<Rightarrow> FlexGPUDeviceTensor \<Rightarrow> FlexGPUTransformer
     \<Rightarrow> error + (FlexGPUDeviceTensor \<times> FlexGPUTransformer)" where
  "setitem_sequence ext [] self tr = Inr (self, tr)"
| "setitem_sequence ext ((key, val) # ws) self tr =
     (case FlexGPUDeviceTensor_setitem ext key val self tr of
        Inl e \<Rightarrow> Inl e
      | Inr (self1, tr1) \<Rightarrow> setitem_sequence ext ws self1 tr1)"






text \<open>
  Modelled from the spec: the conversion of a float to the integer storage format in the
  store of the base class GPUDeviceTensor, which is not part of the sources. The spec
  bounds the quantization error of a write by half a unit of the scale: the conversion
  returns a nearest integer.
\<close>

definition rounds_to_nearest :: "(real \<Rightarrow> int) \<Rightarrow> bool" where
  "rounds_to_nearest conv \<longleftrightarrow> (\<forall>x. \<bar>real_of_int (conv x) - x\<bar> \<le> 1 / 2)"

text \<open>The number that \<open>_ew_bind_flex_scales\<close> computes for a descriptor.\<close>

definition bound_scale :: "(ref \<Rightarrow> FlexEntry) \<Rightarrow> FlexScaleDescription \<Rightarrow> real" where
  "bound_scale es d =
     (if is_output d then 1 / scale (es (flex_entry d)) else scale (es (flex_entry d)))"

text \<open>What \<open>_create_output_flex_ids\<close> establishes for a kernel.\<close>

definition kernel_ok :: "(ref \<Rightarrow> FlexEntry) \<Rightarrow> kernel \<Rightarrow> bool" where
  "kernel_ok es k \<longleftrightarrow>
     output_flex_ids k \<noteq> None \<and>
     (kernel_class k = ElementWiseKernel \<longrightarrow>
        output_flex_ids k = Some (kernel_output_ids es (params k))) \<and>
     (kernel_class k \<in> set non_flex_kernels \<longrightarrow> output_flex_ids k = Some [])"

subsection \<open>A concrete configuration\<close>

text \<open>
  A 16-bit flex format, an environment whose hooks leave the manager and the entries as
  they are and whose store rounds to the nearest integer, a transformer before and after
  \<open>allocate()\<close> whose entry 0 has scale 1 and whose other entries have scale 2, two
  tensors, a kernel group of an element-wise kernel and a dimshuffle kernel, before
  and after \<open>compile_all\<close>, and a kernel group without kernels.
\<close>

definition flex16 :: GPUFlex where
  "flex16 = \<lparr>storage_bits = 16, storage_dtype = ''int16''\<rparr>"

definition idle_external :: external where
  "idle_external =
     \<lparr>entry_manage_before_computation = (\<lambda>val e. e),
      entry_manage_after_computation = (\<lambda>maxabs count e. e),
      manage_before_computation = (\<lambda>k m. m),
      manage_after_computation = (\<lambda>k m. m),
      save_diagnostic_data = (\<lambda>m. m),
      new_flex_manager = (\<lambda>fp v.
        \<lparr>autoflex_count = 0,
         entries = (\<lambda>r. \<lparr>flex_id = r, scale = (if r = 0 then 1 else 2), dtype = flex16,
                           history = [], step_index = 0\<rparr>),
         registry = [], allocated = False, manager_fixed_point = fp, manager_verbose = v\<rparr>),
      new_flex_entry = (\<lambda>name r. \<lparr>flex_id = r, scale = (if r = 0 then 1 else 2), dtype = flex16,
                                     history = [], step_index = 0\<rparr>),
      execute = (\<lambda>k m. m),
      kernel_bind_flex_scales = (\<lambda>k m. params k),
      bind_ptr = (\<lambda>ps. ps),
      to_storage = round,
      base_compile_all = (\<lambda>g. g),
      base_transform_ordered_ops = (\<lambda>ordered_ops name m. (name, m))\<rparr>"

definition fresh_transformer :: FlexGPUTransformer where
  "fresh_transformer =
     \<lparr>fixed_point = False, graph_passes = [ClearTensorDescriptions, FlexDtypePass],
      flex_manager = new_flex_manager idle_external False False,
      trace = []\<rparr>"

definition demo_transformer :: FlexGPUTransformer where
  "demo_transformer =
     fresh_transformer\<lparr>flex_manager := (flex_manager fresh_transformer)\<lparr>allocated := True\<rparr>\<rparr>"

definition demo_tensor :: FlexGPUDeviceTensor where
  "demo_tensor = \<lparr>device_buffer_flex_entry = 0, device_data = [0, 0]\<rparr>"

definition demo_tensor2 :: FlexGPUDeviceTensor where
  "demo_tensor2 = \<lparr>device_buffer_flex_entry = 1, device_data = [0, 0]\<rparr>"

definition demo_ew_kernel :: kernel where
  "demo_ew_kernel =
     \<lparr>kernel_class = ElementWiseKernel, kernel_name = ''ew'',
      params = [FlexScaleParam \<lparr>flex_entry = 0, is_output = False\<rparr>, OtherParam ''n'',
                FlexScaleParam \<lparr>flex_entry = 1, is_output = True\<rparr>, FlexPtrParam 1],
      output_flex_ids = None, flex_scale_info = None\<rparr>"

definition demo_dimshuffle_kernel :: kernel where
  "demo_dimshuffle_kernel =
     \<lparr>kernel_class = DimShuffleKernel, kernel_name = ''dimshuffle'',
      params = [OtherParam ''axes''], output_flex_ids = None, flex_scale_info = None\<rparr>"

definition demo_group :: FlexGPUKernelGroup where
  "demo_group =
     \<lparr>group_name = ''group'', kernels = [demo_ew_kernel, demo_dimshuffle_kernel],
      group_output_flex_ids = None\<rparr>"

definition compiled_demo_group :: FlexGPUKernelGroup where
  "compiled_demo_group =
     \<lparr>group_name = ''group'',
      kernels =
        [demo_ew_kernel\<lparr>output_flex_ids := Some [1],
                        flex_scale_info := Some [(0, \<lparr>flex_entry = 0, is_output = False\<rparr>),
                                                 (2, \<lparr>flex_entry = 1, is_output = True\<rparr>)]\<rparr>,
         demo_dimshuffle_kernel\<lparr>output_flex_ids := Some []\<rparr>],
      group_output_flex_ids = Some [1]\<rparr>"

definition empty_group :: FlexGPUKernelGroup where
  "empty_group = \<lparr>group_name = ''empty'', kernels = [], group_output_flex_ids = Some []\<rparr>"

lemmas demo_defs = flex16_def idle_external_def fresh_transformer_def demo_transformer_def
  demo_tensor_def demo_tensor2_def demo_ew_kernel_def demo_dimshuffle_kernel_def demo_group_def
  compiled_demo_group_def empty_group_def

lemmas setitem_defs = FlexGPUDeviceTensor_setitem_def FlexEntry_manage_before_computation_def
  FlexEntry_manage_after_computation_def py_truediv_def tensor_scale_def tensor_flex_entry_def
  clip_def GPUDeviceTensor_setitem_def amax_absolute_def py_int_def py_pow2_def
  FlexGPUDeviceTensor_get_def GPUDeviceTensor_get_def

lemmas compile_defs = compile_all_def create_output_flex_ids_def create_ew_flex_scale_info_def
  non_flex_kernels_def


lemmas call_defs = FlexGPUKernelGroup_call_def advance_autoflex_count_def
  GPUFlexManager_save_diagnostic_data_def setup_kernel_execute_def after_kernel_execute_def
  kernel_execute_def bind_flex_scales_def ew_bind_flex_scales_def
  GPUFlexManager_manage_before_computation_def GPUFlexManager_manage_after_computation_def

section \<open>Properties\<close>

subsection \<open>Auxiliary facts about tensor assignment\<close>

lemma py_pow2_pos: "0 < py_pow2 b"
  by (simp add: py_pow2_def)

lemma py_pow2_nonneg_exp: "0 \<le> b \<Longrightarrow> py_pow2 b = 2 ^ nat b"
  by (simp add: py_pow2_def)

lemma py_pow2_ge_one: "0 \<le> b \<Longrightarrow> 1 \<le> py_pow2 b"
  by (simp add: py_pow2_def)

lemma clip_within:
  assumes "minval \<le> 0" "0 \<le> maxval" "c \<in> set (pyvalue_elems (clip minval maxval val))"
  shows "minval \<le> c \<and> c \<le> maxval"
  using assms by (cases val) (auto simp: clip_def pyvalue_elems_def)

lemma clip_abs_le:
  assumes "c \<in> set (pyvalue_elems (clip (- py_pow2 b) (py_pow2 b - 1) val))"
  shows "\<bar>c\<bar> \<le> py_pow2 b \<or> \<bar>c\<bar> < 1"
  using assms py_pow2_pos[of b]
  by (cases val) (auto simp: clip_def pyvalue_elems_def min_def max_def abs_if split: if_splits)

lemma py_int_abs_le:
  assumes "\<bar>c\<bar> \<le> py_pow2 b \<or> \<bar>c\<bar> < 1"
  shows "0 \<le> py_int \<bar>c\<bar> \<and> real_of_int (py_int \<bar>c\<bar>) \<le> py_pow2 b"
proof -
  have f: "py_int \<bar>c\<bar> = \<lfloor>\<bar>c\<bar>\<rfloor>" by (simp add: py_int_def)
  have "real_of_int \<lfloor>\<bar>c\<bar>\<rfloor> \<le> py_pow2 b"
    using assms
  proof
    assume "\<bar>c\<bar> \<le> py_pow2 b"
    moreover have "real_of_int \<lfloor>\<bar>c\<bar>\<rfloor> \<le> \<bar>c\<bar>" by (rule of_int_floor_le)
    ultimately show ?thesis by linarith
  next
    assume "\<bar>c\<bar> < 1"
    then have "\<lfloor>\<bar>c\<bar>\<rfloor> = 0" by (simp add: floor_eq_iff)
    then show ?thesis using py_pow2_pos[of b] by simp
  qed
  then show ?thesis by (simp add: f)
qed

lemma fold_max_abs_mem: "fold (\<lambda>x m. max m \<bar>x\<bar>) xs \<bar>v\<bar> \<in> (\<lambda>c. \<bar>c\<bar>) ` set (v # xs)"
proof (induction xs arbitrary: v)
  case Nil
  then show ?case by simp
next
  case (Cons a xs)
  have "max \<bar>v\<bar> \<bar>a\<bar> = \<bar>v\<bar> \<or> max \<bar>v\<bar> \<bar>a\<bar> = \<bar>a\<bar>" by (auto simp: max_def)
  then show ?case
  proof
    assume "max \<bar>v\<bar> \<bar>a\<bar> = \<bar>v\<bar>"
    then show ?thesis using Cons.IH[of v] by auto
  next
    assume "max \<bar>v\<bar> \<bar>a\<bar> = \<bar>a\<bar>"
    then show ?thesis using Cons.IH[of a] by auto
  qed
qed

lemma amax_absolute_mem:
  assumes "amax_absolute val = Inr m"
  shows "\<exists>c\<in>set (pyvalue_elems val). m = \<bar>c\<bar>"
proof (cases val)
  case (Scalar v)
  then show ?thesis using assms by (auto simp: amax_absolute_def pyvalue_elems_def)
next
  case (NdArray vs)
  then obtain v rest where vs: "vs = v # rest" and m: "m = fold (\<lambda>x m. max m \<bar>x\<bar>) rest \<bar>v\<bar>"
    using assms by (auto simp: amax_absolute_def split: list.splits)
  show ?thesis using fold_max_abs_mem[of rest v] NdArray vs m by (auto simp: pyvalue_elems_def)
qed

lemma fold_update_pred:
  assumes "\<forall>x\<in>set d. P x" "\<forall>(i, c)\<in>set ics. P c"
  shows "\<forall>x\<in>set (fold (\<lambda>(i, c) d. d[i := c]) ics d). P x"
  using assms
proof (induction ics arbitrary: d)
  case Nil
  then show ?case by simp
next
  case (Cons a ics)
  obtain i c where a: "a = (i, c)" by (cases a)
  have pc: "P c" using Cons.prems(2) a by simp
  have step: "\<forall>x\<in>set (d[i := c]). P x"
  proof
    fix x assume "x \<in> set (d[i := c])"
    then have "x \<in> insert c (set d)" using set_update_subset_insert[of d i c] by blast
    then show "P x" using pc Cons.prems(1) by blast
  qed
  have rest: "\<forall>(i, c)\<in>set ics. P c" using Cons.prems(2) by simp
  show ?case using Cons.IH[OF step rest] by (simp add: a)
qed

lemma conv_within:
  assumes "\<And>x. \<lfloor>x\<rfloor> \<le> conv x \<and> conv x \<le> \<lceil>x\<rceil>"
    and "real_of_int lo \<le> x" "x \<le> real_of_int hi"
  shows "lo \<le> conv x \<and> conv x \<le> hi"
proof -
  have "lo \<le> \<lfloor>x\<rfloor>" using assms(2) by (simp add: le_floor_iff)
  moreover have "\<lceil>x\<rceil> \<le> hi" using assms(3) by (simp add: ceiling_le_iff)
  ultimately show ?thesis using assms(1)[of x] by linarith
qed

lemma base_setitem_pred:
  assumes "GPUDeviceTensor_setitem conv key val self = Inr self'"
    and "\<forall>x\<in>set (device_data self). P x"
    and "\<forall>v\<in>set (pyvalue_elems val). P (conv v)"
  shows "(\<forall>x\<in>set (device_data self'). P x) \<and>
         device_buffer_flex_entry self' = device_buffer_flex_entry self \<and>
         length (device_data self') = length (device_data self)"
proof (cases val)
  case (Scalar v)
  have eq: "fold (\<lambda>i d. d[i := conv v]) key d = fold (\<lambda>(i, c) d. d[i := c]) (map (\<lambda>i. (i, conv v)) key) d" for d
    by (induction key arbitrary: d) auto
  have "\<forall>x\<in>set (fold (\<lambda>i d. d[i := conv v]) key (device_data self)). P x"
    unfolding eq using assms(2,3) Scalar by (intro fold_update_pred) (auto simp: pyvalue_elems_def)
  moreover have "length (fold (\<lambda>i d. d[i := conv v]) key d) = length d" for d
    by (induction key arbitrary: d) auto
  ultimately show ?thesis using assms(1) Scalar
    by (auto simp: GPUDeviceTensor_setitem_def split: if_splits)
next
  case (NdArray vs)
  have eq: "fold (\<lambda>(i, v) d. d[i := conv v]) ivs d = fold (\<lambda>(i, c) d. d[i := c]) (map (\<lambda>(i, v). (i, conv v)) ivs) d" for d ivs
    by (induction ivs arbitrary: d) auto
  have "\<forall>x\<in>set (fold (\<lambda>(i, v) d. d[i := conv v]) (zip key vs) (device_data self)). P x"
    unfolding eq using assms(2,3) NdArray
    by (intro fold_update_pred) (auto simp: pyvalue_elems_def dest: set_zip_rightD)
  moreover have "length (fold (\<lambda>(i, v) d. d[i := conv v]) ivs d) = length d" for d ivs
    by (induction ivs arbitrary: d) auto
  ultimately show ?thesis using assms(1) NdArray
    by (auto simp: GPUDeviceTensor_setitem_def split: if_splits)
qed

lemma setitem_Inr:
  assumes "FlexGPUDeviceTensor_setitem ext key val self tr = Inr (self', tr')"
  defines "tr1 \<equiv> FlexEntry_manage_before_computation ext (device_buffer_flex_entry self) val tr"
  defines "b \<equiv> storage_bits (dtype (tensor_flex_entry self tr1)) - 1"
  shows "\<exists>val1 m. py_truediv val (tensor_scale self tr1) = Inr val1 \<and>
           GPUDeviceTensor_setitem (to_storage ext) key (clip (- py_pow2 b) (py_pow2 b - 1) val1) self = Inr self' \<and>
           amax_absolute (clip (- py_pow2 b) (py_pow2 b - 1) val1) = Inr m \<and>
           tr' = FlexEntry_manage_after_computation ext (device_buffer_flex_entry self) (py_int m)
                   (autoflex_count (flex_manager tr1)) tr1"
  using assms(1) unfolding FlexGPUDeviceTensor_setitem_def tr1_def b_def Let_def
  by (auto split: sum.splits)

lemma tensor_flex_entry_before:
  "tensor_flex_entry self (FlexEntry_manage_before_computation ext (device_buffer_flex_entry self) val tr)
     = entry_manage_before_computation ext val (tensor_flex_entry self tr)"
  by (simp add: tensor_flex_entry_def FlexEntry_manage_before_computation_def)

lemma tensor_flex_entry_after:
  "tensor_flex_entry self (FlexEntry_manage_after_computation ext (device_buffer_flex_entry self) m c tr)
     = entry_manage_after_computation ext m c (tensor_flex_entry self tr)"
  by (simp add: tensor_flex_entry_def FlexEntry_manage_after_computation_def)

lemma tensor_flex_entry_cong:
  "device_buffer_flex_entry self' = device_buffer_flex_entry self \<Longrightarrow>
   tensor_flex_entry self' tr = tensor_flex_entry self tr"
  by (simp add: tensor_flex_entry_def)

lemma setitem_keeps_range:
  assumes conv: "\<And>x. \<lfloor>x\<rfloor> \<le> to_storage ext x \<and> to_storage ext x \<le> \<lceil>x\<rceil>"
    and keep_before: "\<And>v e. dtype (entry_manage_before_computation ext v e) = dtype e"
    and keep_after: "\<And>m c e. dtype (entry_manage_after_computation ext m c e) = dtype e"
    and b: "storage_bits (dtype (tensor_flex_entry self tr)) - 1 = b" "0 \<le> b"
    and init: "\<forall>x\<in>set (device_data self). - (2 ^ nat b) \<le> x \<and> x \<le> 2 ^ nat b - 1"
    and run: "FlexGPUDeviceTensor_setitem ext key val self tr = Inr (self', tr')"
  shows "(\<forall>x\<in>set (device_data self'). - (2 ^ nat b) \<le> x \<and> x \<le> 2 ^ nat b - 1) \<and>
         storage_bits (dtype (tensor_flex_entry self' tr')) - 1 = b"
proof -
  define tr1 where "tr1 = FlexEntry_manage_before_computation ext (device_buffer_flex_entry self) val tr"
  have b1: "storage_bits (dtype (tensor_flex_entry self tr1)) - 1 = b"
    using b(1) by (simp add: tr1_def tensor_flex_entry_before keep_before)
  from setitem_Inr[OF run] obtain val1 m where
    store: "GPUDeviceTensor_setitem (to_storage ext) key (clip (- py_pow2 b) (py_pow2 b - 1) val1) self = Inr self'"
    and tr': "tr' = FlexEntry_manage_after_computation ext (device_buffer_flex_entry self) (py_int m)
                   (autoflex_count (flex_manager tr1)) tr1"
    unfolding tr1_def[symmetric] b1 by blast
  have pw: "py_pow2 b = real_of_int (2 ^ nat b)"
    using b(2) by (simp add: py_pow2_def)
  have clipped: "\<forall>v\<in>set (pyvalue_elems (clip (- py_pow2 b) (py_pow2 b - 1) val1)).
      - (2 ^ nat b) \<le> to_storage ext v \<and> to_storage ext v \<le> 2 ^ nat b - 1"
  proof
    fix v assume "v \<in> set (pyvalue_elems (clip (- py_pow2 b) (py_pow2 b - 1) val1))"
    then have "- py_pow2 b \<le> v \<and> v \<le> py_pow2 b - 1"
      using py_pow2_ge_one[OF b(2)] by (intro clip_within) auto
    then have "real_of_int (- (2 ^ nat b)) \<le> v" "v \<le> real_of_int (2 ^ nat b - 1)"
      by (simp_all add: pw)
    from conv_within[of "to_storage ext", OF conv this]
    show "- (2 ^ nat b) \<le> to_storage ext v \<and> to_storage ext v \<le> 2 ^ nat b - 1" .
  qed
  from base_setitem_pred[OF store init clipped]
  have data: "\<forall>x\<in>set (device_data self'). - (2 ^ nat b) \<le> x \<and> x \<le> 2 ^ nat b - 1"
    and same: "device_buffer_flex_entry self' = device_buffer_flex_entry self"
    by blast+
  have "storage_bits (dtype (tensor_flex_entry self' tr')) - 1 = b"
    using b1 by (simp add: tensor_flex_entry_cong[OF same] tr' tensor_flex_entry_after keep_after)
  with data show ?thesis by blast
qed

lemma setitem_sequence_keeps_range:
  assumes conv: "\<And>x. \<lfloor>x\<rfloor> \<le> to_storage ext x \<and> to_storage ext x \<le> \<lceil>x\<rceil>"
    and keep_before: "\<And>v e. dtype (entry_manage_before_computation ext v e) = dtype e"
    and keep_after: "\<And>m c e. dtype (entry_manage_after_computation ext m c e) = dtype e"
    and b: "storage_bits (dtype (tensor_flex_entry self tr)) - 1 = b" "0 \<le> b"
    and init: "\<forall>x\<in>set (device_data self). - (2 ^ nat b) \<le> x \<and> x \<le> 2 ^ nat b - 1"
    and run: "setitem_sequence ext ws self tr = Inr (self', tr')"
  shows "\<forall>x\<in>set (device_data self'). - (2 ^ nat b) \<le> x \<and> x \<le> 2 ^ nat b - 1"
  using b(1) init run
proof (induction ws arbitrary: self tr)
  case Nil
  then show ?case by simp
next
  case (Cons w ws)
  obtain key val where w: "w = (key, val)" by (cases w)
  from Cons.prems(3) w obtain self1 tr1 where
    step: "FlexGPUDeviceTensor_setitem ext key val self tr = Inr (self1, tr1)"
    and rest: "setitem_sequence ext ws self1 tr1 = Inr (self', tr')"
    by (auto split: sum.splits)
  from setitem_keeps_range[OF conv keep_before keep_after Cons.prems(1) b(2) Cons.prems(2) step]
  show ?case using Cons.IH[OF _ _ rest] by blast
qed

lemma get_bounds:
  assumes data: "\<forall>x\<in>set (device_data self). - (2 ^ nat b) \<le> x \<and> x \<le> 2 ^ nat b - 1"
    and r: "r \<in> set (fst (FlexGPUDeviceTensor_get self tr))"
    and s: "0 \<le> tensor_scale self tr"
  shows "- (tensor_scale self tr * 2 ^ nat b) \<le> r \<and> r \<le> tensor_scale self tr * (2 ^ nat b - 1)"
proof -
  from r obtain x where x: "x \<in> set (device_data self)" and rx: "r = real_of_int x * tensor_scale self tr"
    by (auto simp: FlexGPUDeviceTensor_get_def GPUDeviceTensor_get_def)
  from data x have ix: "- (2 ^ nat b) \<le> x" "x \<le> 2 ^ nat b - 1" by blast+
  have "real_of_int (- (2 ^ nat b)) \<le> real_of_int x"
    using ix(1) by (simp only: of_int_le_iff)
  then have lo: "- (2 ^ nat b) \<le> real_of_int x" by simp
  have "real_of_int x \<le> real_of_int (2 ^ nat b - 1)"
    using ix(2) by (simp only: of_int_le_iff)
  then have hi: "real_of_int x \<le> 2 ^ nat b - 1" by simp
  have "(- (2 ^ nat b)) * tensor_scale self tr \<le> real_of_int x * tensor_scale self tr"
    by (rule mult_right_mono[OF lo s])
  moreover have "real_of_int x * tensor_scale self tr \<le> (2 ^ nat b - 1) * tensor_scale self tr"
    by (rule mult_right_mono[OF hi s])
  ultimately have "- (tensor_scale self tr * 2 ^ nat b) \<le> real_of_int x * tensor_scale self tr \<and>
     real_of_int x * tensor_scale self tr \<le> tensor_scale self tr * (2 ^ nat b - 1)"
    by (simp add: mult.commute)
  then show ?thesis by (simp add: rx mult.commute)
qed

lemma fold_update_length: "length (fold (\<lambda>(i, c) d. d[i := c]) ics d) = length d"
  by (induction ics arbitrary: d) auto

lemma fold_update_nth_other:
  "i \<notin> fst ` set ics \<Longrightarrow> fold (\<lambda>(i, c) d. d[i := c]) ics d ! i = d ! i"
  by (induction ics arbitrary: d) auto

lemma fold_update_nth:
  assumes "(i, c) \<in> set ics" "distinct (map fst ics)" "i < length d"
  shows "fold (\<lambda>(i, c) d. d[i := c]) ics d ! i = c"
  using assms
proof (induction ics arbitrary: d)
  case Nil
  then show ?case by simp
next
  case (Cons a ics)
  obtain j e where a: "a = (j, e)" by (cases a)
  show ?case
  proof (cases "(i, c) = a")
    case True
    have "fst a \<notin> set (map fst ics)" using Cons.prems(2) by simp
    moreover have "fst a = i" using True by auto
    ultimately have "i \<notin> fst ` set ics" by simp
    then have "fold (\<lambda>(i, c) d. d[i := c]) ics (d[i := c]) ! i = d[i := c] ! i"
      by (rule fold_update_nth_other)
    then show ?thesis using True Cons.prems(3) a by auto
  next
    case False
    then have mem: "(i, c) \<in> set ics" using Cons.prems(1) by auto
    have d: "distinct (map fst ics)" using Cons.prems(2) by simp
    have l: "i < length (d[j := e])" using Cons.prems(3) by simp
    show ?thesis using Cons.IH[OF mem d l] a by simp
  qed
qed

lemma base_setitem_assigned:
  assumes "\<forall>i\<in>set key. i < length (device_data self)"
    and "case val of Scalar v \<Rightarrow> True | NdArray vs \<Rightarrow> length vs = length key"
  shows "GPUDeviceTensor_setitem conv key val self =
     Inr (self\<lparr>device_data := fold (\<lambda>(i, c) d. d[i := c])
            (map (\<lambda>(i, v). (i, conv v)) (assigned key val)) (device_data self)\<rparr>)"
proof -
  have a: "\<not> list_ex (\<lambda>i. length (device_data self) \<le> i) key"
    using assms(1) by (auto simp: list_ex_iff)
  have eq1: "fold (\<lambda>i d. d[i := conv v]) key d =
      fold (\<lambda>(i, c) d. d[i := c]) (map (\<lambda>(i, v). (i, conv v)) (map (\<lambda>i. (i, v)) key)) d" for d v
    by (induction key arbitrary: d) auto
  have eq2: "fold (\<lambda>(i, v) d. d[i := conv v]) ivs d =
      fold (\<lambda>(i, c) d. d[i := c]) (map (\<lambda>(i, v). (i, conv v)) ivs) d" for d ivs
    by (induction ivs arbitrary: d) auto
  show ?thesis
  proof (cases val)
    case (Scalar v)
    then show ?thesis using a by (simp add: GPUDeviceTensor_setitem_def assigned_def eq1)
  next
    case (NdArray vs)
    then show ?thesis using a assms(2) by (simp add: GPUDeviceTensor_setitem_def assigned_def eq2)
  qed
qed

lemma clip_id:
  assumes "\<forall>v\<in>set (pyvalue_elems val). minval \<le> v \<and> v \<le> maxval"
  shows "clip minval maxval val = val"
proof (cases val)
  case (Scalar v)
  then show ?thesis using assms by (auto simp: clip_def pyvalue_elems_def)
next
  case (NdArray vs)
  have up: "map (\<lambda>v. if v > maxval then maxval else v) vs = vs"
    using assms NdArray by (intro map_idI) (auto simp: pyvalue_elems_def)
  have lo: "map (\<lambda>v. if v < minval then minval else v) vs = vs"
    using assms NdArray by (intro map_idI) (auto simp: pyvalue_elems_def)
  have "map (\<lambda>v. if v < minval then minval else v) (map (\<lambda>v. if v > maxval then maxval else v) vs) = vs"
    by (simp only: up lo)
  then show ?thesis using NdArray by (simp add: clip_def)
qed

lemma elems_truediv:
  "s \<noteq> 0 \<Longrightarrow> py_truediv val s = Inr val1 \<Longrightarrow> pyvalue_elems val1 = map (\<lambda>v. v / s) (pyvalue_elems val)"
  by (cases val) (auto simp: py_truediv_def pyvalue_elems_def)

lemma assigned_truediv:
  "s \<noteq> 0 \<Longrightarrow> py_truediv val s = Inr val1 \<Longrightarrow>
     assigned key val1 = map (\<lambda>(i, v). (i, v / s)) (assigned key val)"
  by (cases val) (auto simp: py_truediv_def assigned_def zip_map2)

lemma assigned_fst: 
  "case val of Scalar v \<Rightarrow> True | NdArray vs \<Rightarrow> length vs = length key \<Longrightarrow> map fst (assigned key val) = key"
  by (cases val) (auto simp: assigned_def comp_def)

lemma amax_absolute_defined:
  "case val of Scalar v \<Rightarrow> True | NdArray vs \<Rightarrow> vs \<noteq> [] \<Longrightarrow> \<exists>m. amax_absolute val = Inr m"
  by (cases val) (auto simp: amax_absolute_def split: list.splits)

lemma truediv_shape:
  assumes "py_truediv val s = Inr val1"
  shows "(case val1 of Scalar v \<Rightarrow> True | NdArray vs \<Rightarrow> length vs = length key \<and> vs \<noteq> []) =
         (case val of Scalar v \<Rightarrow> True | NdArray vs \<Rightarrow> length vs = length key \<and> vs \<noteq> [])"
  using assms by (cases val) (auto simp: py_truediv_def split: if_splits)

lemma quantization_error:
  assumes "\<bar>real_of_int n - v / s\<bar> \<le> 1 / 2" "0 < s"
  shows "\<bar>real_of_int n * s - v\<bar> \<le> s / 2"
proof -
  have "real_of_int n * s - v = (real_of_int n - v / s) * s"
    using assms(2) by (simp add: field_simps)
  then have "\<bar>real_of_int n * s - v\<bar> = \<bar>real_of_int n - v / s\<bar> * s"
    using assms(2) by (simp add: abs_mult)
  also have "\<dots> \<le> (1 / 2) * s"
    using assms by (intro mult_right_mono) auto
  finally show ?thesis by simp
qed

lemma fold_max_abs_ge:
  "(a::real) \<le> fold (\<lambda>x m. max m \<bar>x\<bar>) xs a \<and> (\<forall>x\<in>set xs. \<bar>x\<bar> \<le> fold (\<lambda>x m. max m \<bar>x\<bar>) xs a)"
proof (induction xs arbitrary: a)
  case Nil
  then show ?case by simp
next
  case (Cons y ys)
  have ih: "max a \<bar>y\<bar> \<le> fold (\<lambda>x m. max m \<bar>x\<bar>) ys (max a \<bar>y\<bar>)"
    "\<forall>x\<in>set ys. \<bar>x\<bar> \<le> fold (\<lambda>x m. max m \<bar>x\<bar>) ys (max a \<bar>y\<bar>)"
    using Cons.IH[of "max a \<bar>y\<bar>"] by blast+
  have "a \<le> max a \<bar>y\<bar>" "\<bar>y\<bar> \<le> max a \<bar>y\<bar>" by simp_all
  then show ?case using ih by fastforce
qed

lemma amax_absolute_upper:
  assumes "amax_absolute val = Inr a"
  shows "\<forall>c\<in>set (pyvalue_elems val). \<bar>c\<bar> \<le> a"
proof (cases val)
  case (Scalar v)
  then show ?thesis using assms by (auto simp: amax_absolute_def pyvalue_elems_def)
next
  case (NdArray vs)
  then obtain v rest where vs: "vs = v # rest" and a: "a = fold (\<lambda>x m. max m \<bar>x\<bar>) rest \<bar>v\<bar>"
    using assms by (auto simp: amax_absolute_def split: list.splits)
  show ?thesis using fold_max_abs_ge[of "\<bar>v\<bar>" rest] NdArray vs a by (auto simp: pyvalue_elems_def)
qed

lemma clip_elems:
  assumes "minval \<le> 0" "0 \<le> maxval"
  shows "pyvalue_elems (clip minval maxval val) =
           map (\<lambda>v. max minval (min maxval v)) (pyvalue_elems val)"
proof (cases val)
  case (Scalar v)
  then show ?thesis using assms by (auto simp: clip_def pyvalue_elems_def min_def max_def)
next
  case (NdArray vs)
  have "(\<lambda>v. if v < minval then minval else v) \<circ> (\<lambda>v. if v > maxval then maxval else v) =
        (\<lambda>v. max minval (min maxval v))"
    using assms by (auto simp: fun_eq_iff min_def max_def)
  then show ?thesis using NdArray by (simp add: clip_def pyvalue_elems_def)
qed

lemma py_int_floor:
  assumes "0 \<le> a"
  shows "0 \<le> py_int a \<and> real_of_int (py_int a) \<le> a \<and> a < real_of_int (py_int a) + 1"
proof -
  have "py_int a = \<lfloor>a\<rfloor>" using assms by (simp add: py_int_def)
  moreover have "0 \<le> \<lfloor>a\<rfloor>" using assms by simp
  moreover have "real_of_int \<lfloor>a\<rfloor> \<le> a" by (rule of_int_floor_le)
  moreover have "a < real_of_int \<lfloor>a\<rfloor> + 1" using floor_correct[of a] by simp
  ultimately show ?thesis by simp
qed

subsection \<open>Claims about FlexGPUDeviceTensor\<close>

text \<open>
  Claim C1, as amended. Along every sequence of assignments through \<open>__setitem__\<close>
  that does not raise, the stored integers stay in the asymmetric range
  \<open>[-2^bits, 2^bits - 1]\<close> with \<open>bits = storage_bits - 1\<close>, whatever the assigned values
  are, and a value \<open>r\<close> that a following \<open>get\<close> returns satisfies
  \<open>- scale * 2^bits \<le> r \<le> scale * (2^bits - 1)\<close> for the scale in force at the read: its
  magnitude never exceeds \<open>scale * 2^bits\<close>. It holds for a format with at least one
  bit, a buffer that starts within the range, hooks that leave the dtype of the entry
  alone, and a conversion to the storage format that returns one of the two integers
  next to its argument.
\<close>

theorem setitem_sequence_clipped:
  assumes conv: "\<And>x. \<lfloor>x\<rfloor> \<le> to_storage ext x \<and> to_storage ext x \<le> \<lceil>x\<rceil>"
    and keep_before: "\<And>v e. dtype (entry_manage_before_computation ext v e) = dtype e"
    and keep_after: "\<And>m c e. dtype (entry_manage_after_computation ext m c e) = dtype e"
    and b: "storage_bits (dtype (tensor_flex_entry self tr)) - 1 = b" "0 \<le> b"
    and init: "\<forall>x\<in>set (device_data self). - (2 ^ nat b) \<le> x \<and> x \<le> 2 ^ nat b - 1"
    and run: "setitem_sequence ext ws self tr = Inr (self', tr')"
  shows "(\<forall>x\<in>set (device_data self'). - (2 ^ nat b) \<le> x \<and> x \<le> 2 ^ nat b - 1) \<and>
         (\<forall>r\<in>set (fst (FlexGPUDeviceTensor_get self' tr')).
            0 \<le> tensor_scale self' tr' \<longrightarrow>
            - (tensor_scale self' tr' * 2 ^ nat b) \<le> r \<and> r \<le> tensor_scale self' tr' * (2 ^ nat b - 1))"
proof -
  have data: "\<forall>x\<in>set (device_data self'). - (2 ^ nat b) \<le> x \<and> x \<le> 2 ^ nat b - 1"
    by (rule setitem_sequence_keeps_range[OF conv keep_before keep_after b init run])
  then show ?thesis using get_bounds[OF data] by blast
qed

text \<open>
  The bound of claim C1 as it is stated fails on the negative side: with scale 1 and a
  16-bit format, assigning \<open>-50000\<close> stores \<open>-32768\<close>, and the read returns
  \<open>-32768\<close>, whose magnitude exceeds \<open>1 * (2^15 - 1)\<close>.
\<close>

theorem setitem_negative_clip_counterexample:
  "FlexGPUDeviceTensor_setitem idle_external [0] (Scalar (- 50000)) demo_tensor demo_transformer =
     Inr (demo_tensor\<lparr>device_data := [- 32768, 0]\<rparr>,
          demo_transformer\<lparr>trace := [EntryManageBefore 0 (Scalar (- 50000)),
                                      EntryManageAfter 0 32768 0]\<rparr>) \<and>
   fst (FlexGPUDeviceTensor_get (demo_tensor\<lparr>device_data := [- 32768, 0]\<rparr>)
          (demo_transformer\<lparr>trace := [EntryManageBefore 0 (Scalar (- 50000)),
                                      EntryManageAfter 0 32768 0]\<rparr>)) = [- 32768, 0] \<and>
   tensor_scale (demo_tensor\<lparr>device_data := [- 32768, 0]\<rparr>)
          (demo_transformer\<lparr>trace := [EntryManageBefore 0 (Scalar (- 50000)),
                                      EntryManageAfter 0 32768 0]\<rparr>) = 1 \<and>
   storage_bits (dtype (tensor_flex_entry demo_tensor demo_transformer)) - 1 = 15 \<and>
   \<not> (\<bar>- 32768\<bar> \<le> (1::real) * (2 ^ 15 - 1))"
  by (simp add: demo_defs setitem_defs Let_def fun_eq_iff)

theorem setitem_sequence_clipped_witness:
  "\<exists>t tr. setitem_sequence idle_external [([0], Scalar (- 50000)), ([1], NdArray [70000])]
              demo_tensor demo_transformer = Inr (t, tr) \<and>
     device_data t = [- 32768, 32767] \<and>
     (\<forall>x\<in>set (device_data t). - (2 ^ nat 15) \<le> x \<and> x \<le> 2 ^ nat 15 - 1) \<and>
     (\<forall>r\<in>set (fst (FlexGPUDeviceTensor_get t tr)).
        0 \<le> tensor_scale t tr \<longrightarrow>
        - (tensor_scale t tr * 2 ^ nat 15) \<le> r \<and> r \<le> tensor_scale t tr * (2 ^ nat 15 - 1))"
proof -
  have "\<exists>t tr. setitem_sequence idle_external [([0], Scalar (- 50000)), ([1], NdArray [70000])]
              demo_tensor demo_transformer = Inr (t, tr) \<and> device_data t = [- 32768, 32767]"
    by (simp add: demo_defs setitem_defs Let_def)
  then obtain t tr where
    run: "setitem_sequence idle_external [([0], Scalar (- 50000)), ([1], NdArray [70000])]
              demo_tensor demo_transformer = Inr (t, tr)"
    and data: "device_data t = [- 32768, 32767]"
    by blast
  have conv: "\<And>x. \<lfloor>x\<rfloor> \<le> to_storage idle_external x \<and> to_storage idle_external x \<le> \<lceil>x\<rceil>"
    by (simp add: idle_external_def floor_le_round ceiling_ge_round)
  have kb: "\<And>v e. dtype (entry_manage_before_computation idle_external v e) = dtype e"
    by (simp add: idle_external_def)
  have ka: "\<And>m c e. dtype (entry_manage_after_computation idle_external m c e) = dtype e"
    by (simp add: idle_external_def)
  have b: "storage_bits (dtype (tensor_flex_entry demo_tensor demo_transformer)) - 1 = 15"
    by (simp add: demo_defs tensor_flex_entry_def)
  have init: "\<forall>x\<in>set (device_data demo_tensor). - (2 ^ nat 15) \<le> x \<and> x \<le> 2 ^ nat 15 - 1"
    by (simp add: demo_tensor_def)
  from setitem_sequence_clipped[OF conv kb ka b _ init run] run data
  show ?thesis by simp
qed

text \<open>
  Claim C2. For an assignment whose values, divided by the scale \<open>s\<close> in force for the
  write, lie in the integer range of the storage format, \<open>__setitem__\<close> returns and a
  following \<open>get\<close> reads, at every assigned position, a value within \<open>s / 2\<close> of the
  value assigned. Here \<open>s\<close> is the scale after \<open>manage_before_computation\<close>,
  \<open>manage_after_computation\<close> leaves the scale alone, and the store of the base class
  rounds to a nearest integer.
\<close>

theorem setitem_get_round_trip:
  assumes nearest: "rounds_to_nearest (to_storage ext)"
    and keep_after: "\<And>m c e. scale (entry_manage_after_computation ext m c e) = scale e"
    and e1: "e1 = entry_manage_before_computation ext val (tensor_flex_entry self tr)"
    and s: "s = scale e1" "0 < s"
    and b: "b = storage_bits (dtype e1) - 1"
    and range: "\<forall>v\<in>set (pyvalue_elems val). - py_pow2 b \<le> v / s \<and> v / s \<le> py_pow2 b - 1"
    and key: "distinct key" "\<forall>i\<in>set key. i < length (device_data self)"
    and shape: "case val of Scalar v \<Rightarrow> True | NdArray vs \<Rightarrow> length vs = length key \<and> vs \<noteq> []"
  shows "\<exists>self' tr'. FlexGPUDeviceTensor_setitem ext key val self tr = Inr (self', tr') \<and>
           tensor_scale self' tr' = s \<and>
           (\<forall>(i, v)\<in>set (assigned key val). \<bar>fst (FlexGPUDeviceTensor_get self' tr') ! i - v\<bar> \<le> s / 2)"
proof -
  define r where "r = device_buffer_flex_entry self"
  define tr1 where "tr1 = FlexEntry_manage_before_computation ext r val tr"
  have ent1: "tensor_flex_entry self tr1 = e1"
    by (simp add: tr1_def r_def e1 tensor_flex_entry_before)
  have sc1: "tensor_scale self tr1 = s"
    by (simp add: tensor_scale_def ent1 s(1))
  obtain val1 where div: "py_truediv val s = Inr val1"
    using s(2) by (simp add: py_truediv_def)
  have el1: "pyvalue_elems val1 = map (\<lambda>v. v / s) (pyvalue_elems val)"
    using elems_truediv[OF _ div] s(2) by simp
  have as1: "assigned key val1 = map (\<lambda>(i, v). (i, v / s)) (assigned key val)"
    using assigned_truediv[OF _ div] s(2) by simp
  have shape1: "case val1 of Scalar v \<Rightarrow> True | NdArray vs \<Rightarrow> length vs = length key \<and> vs \<noteq> []"
    using truediv_shape[OF div, of key] shape by simp
  have cl: "clip (- py_pow2 b) (py_pow2 b - 1) val1 = val1"
    by (rule clip_id) (use range in \<open>simp add: el1\<close>)
  have len1: "case val1 of Scalar v \<Rightarrow> True | NdArray vs \<Rightarrow> length vs = length key"
    using shape1 by (cases val1) auto
  define self' where "self' = self\<lparr>device_data := fold (\<lambda>(i, c) d. d[i := c])
            (map (\<lambda>(i, v). (i, to_storage ext v)) (assigned key val1)) (device_data self)\<rparr>"
  have store: "GPUDeviceTensor_setitem (to_storage ext) key val1 self = Inr self'"
    unfolding self'_def by (rule base_setitem_assigned[OF key(2) len1])
  obtain m where m: "amax_absolute val1 = Inr m"
    using amax_absolute_defined[of val1] shape1 by (cases val1) auto
  define tr' where "tr' = FlexEntry_manage_after_computation ext r (py_int m)
                            (autoflex_count (flex_manager tr1)) tr1"
  have run: "FlexGPUDeviceTensor_setitem ext key val self tr = Inr (self', tr')"
    unfolding FlexGPUDeviceTensor_setitem_def Let_def
    by (simp add: r_def[symmetric] tr1_def[symmetric] sc1 div ent1 b[symmetric] cl store m tr'_def)
  have same: "device_buffer_flex_entry self' = device_buffer_flex_entry self"
    by (simp add: self'_def)
  have sc': "tensor_scale self' tr' = s"
    unfolding tensor_scale_def tensor_flex_entry_cong[OF same] tr'_def r_def
    by (simp add: tensor_flex_entry_after keep_after ent1 s(1))
  have err: "\<forall>(i, v)\<in>set (assigned key val). \<bar>fst (FlexGPUDeviceTensor_get self' tr') ! i - v\<bar> \<le> s / 2"
  proof (clarify)
    fix i v assume iv: "(i, v) \<in> set (assigned key val)"
    have keys: "map fst (assigned key val) = key"
      using shape by (intro assigned_fst) (cases val; auto)
    have ikey: "i \<in> set key"
      using iv keys by (metis fst_conv image_eqI set_map)
    have ilen: "i < length (device_data self)" using key(2) ikey by blast
    let ?ics = "map (\<lambda>(i, v). (i, to_storage ext v)) (assigned key val1)"
    have mem: "(i, to_storage ext (v / s)) \<in> set ?ics"
      using iv by (force simp: as1)
    have dist: "distinct (map fst ?ics)"
      using key(1) keys by (simp add: as1 comp_def case_prod_unfold)
    have nth: "device_data self' ! i = to_storage ext (v / s)"
      unfolding self'_def using fold_update_nth[OF mem dist ilen] by simp
    have ilen': "i < length (device_data self')"
      using ilen by (simp add: self'_def fold_update_length)
    have "fst (FlexGPUDeviceTensor_get self' tr') ! i = real_of_int (to_storage ext (v / s)) * s"
      using ilen' by (simp add: FlexGPUDeviceTensor_get_def GPUDeviceTensor_get_def sc' nth)
    moreover have "\<bar>real_of_int (to_storage ext (v / s)) - v / s\<bar> \<le> 1 / 2"
      using nearest by (simp add: rounds_to_nearest_def)
    ultimately show "\<bar>fst (FlexGPUDeviceTensor_get self' tr') ! i - v\<bar> \<le> s / 2"
      using quantization_error[OF _ s(2)] by simp
  qed
  show ?thesis using run sc' err by blast
qed

theorem setitem_get_round_trip_witness:
  "0 < (2::real) \<and>
   (\<exists>self' tr'. FlexGPUDeviceTensor_setitem idle_external [0] (Scalar 7) demo_tensor2
        demo_transformer = Inr (self', tr') \<and>
      tensor_scale self' tr' = 2 \<and>
      (\<forall>(i, v)\<in>set (assigned [0] (Scalar 7)).
         \<bar>fst (FlexGPUDeviceTensor_get self' tr') ! i - v\<bar> \<le> 2 / 2))"
proof -
  have nearest: "rounds_to_nearest (to_storage idle_external)"
    unfolding rounds_to_nearest_def idle_external_def
    using of_int_round_abs_le[where 'a = real] by simp
  have ka: "\<And>m c e. scale (entry_manage_after_computation idle_external m c e) = scale e"
    by (simp add: idle_external_def)
  have s: "2 = scale (entry_manage_before_computation idle_external (Scalar 7)
                        (tensor_flex_entry demo_tensor2 demo_transformer))"
    by (simp add: demo_defs tensor_flex_entry_def)
  have b: "15 = storage_bits (dtype (entry_manage_before_computation idle_external (Scalar 7)
                        (tensor_flex_entry demo_tensor2 demo_transformer))) - 1"
    by (simp add: demo_defs tensor_flex_entry_def)
  have range: "\<forall>v\<in>set (pyvalue_elems (Scalar 7)). - py_pow2 15 \<le> v / 2 \<and> v / 2 \<le> py_pow2 15 - 1"
    by (simp add: pyvalue_elems_def py_pow2_def)
  have key: "distinct [0::nat]" "\<forall>i\<in>set [0]. i < length (device_data demo_tensor2)"
    by (simp_all add: demo_tensor2_def)
  have shape: "case Scalar 7 of Scalar v \<Rightarrow> True | NdArray vs \<Rightarrow> length vs = length [0::nat] \<and> vs \<noteq> []"
    by simp
  from setitem_get_round_trip[OF nearest ka refl s _ b range key shape]
  show ?thesis by simp
qed

text \<open>
  Claim C10. In every assignment through \<open>__setitem__\<close> that returns, the number that is
  handed to \<open>manage_after_computation\<close> is computed from the clipped value: the value
  that is stored is the quotient by the scale, clipped into \<open>[-2^bits, 2^bits - 1]\<close>
  element by element; \<open>a\<close> is the largest magnitude among its elements; and the number
  \<open>m\<close> that is reported is \<open>a\<close> truncated to an integer. So \<open>m\<close> is an integer between
  0 and \<open>2^(storage_bits - 1)\<close>, however far the assigned value exceeds the range, and
  the report is the last call of the assignment, after \<open>manage_before_computation\<close>.
\<close>

theorem setitem_reported_maxabs:
  assumes run: "FlexGPUDeviceTensor_setitem ext key val self tr = Inr (self', tr')"
    and r: "r = device_buffer_flex_entry self"
    and e1: "e1 = entry_manage_before_computation ext val (tensor_flex_entry self tr)"
    and b: "b = storage_bits (dtype e1) - 1"
  shows "\<exists>val1 a m.
           py_truediv val (scale e1) = Inr val1 \<and>
           GPUDeviceTensor_setitem (to_storage ext) key
             (clip (- py_pow2 b) (py_pow2 b - 1) val1) self = Inr self' \<and>
           (0 \<le> b \<longrightarrow>
              pyvalue_elems (clip (- py_pow2 b) (py_pow2 b - 1) val1) =
                map (\<lambda>v. max (- (2 ^ nat b)) (min (2 ^ nat b - 1) (v / scale e1)))
                  (pyvalue_elems val)) \<and>
           (\<exists>c\<in>set (pyvalue_elems (clip (- py_pow2 b) (py_pow2 b - 1) val1)). a = \<bar>c\<bar>) \<and>
           (\<forall>c\<in>set (pyvalue_elems (clip (- py_pow2 b) (py_pow2 b - 1) val1)). \<bar>c\<bar> \<le> a) \<and>
           0 \<le> m \<and> real_of_int m \<le> a \<and> a < real_of_int m + 1 \<and>
           real_of_int m \<le> py_pow2 b \<and>
           trace tr' = trace tr @ [EntryManageBefore r val,
                         EntryManageAfter r m (autoflex_count (flex_manager tr))] \<and>
           tensor_flex_entry self tr' =
             entry_manage_after_computation ext m (autoflex_count (flex_manager tr)) e1"
proof -
  define tr1 where "tr1 = FlexEntry_manage_before_computation ext (device_buffer_flex_entry self) val tr"
  have ent1: "tensor_flex_entry self tr1 = e1"
    by (simp add: tr1_def e1 tensor_flex_entry_before)
  have b1: "storage_bits (dtype (tensor_flex_entry self tr1)) - 1 = b"
    by (simp add: ent1 b)
  have sc1: "tensor_scale self tr1 = scale e1"
    by (simp add: tensor_scale_def ent1)
  let ?clipped = "\<lambda>val1. clip (- py_pow2 b) (py_pow2 b - 1) val1"
  from setitem_Inr[OF run] obtain val1 a where
    div: "py_truediv val (scale e1) = Inr val1"
    and store: "GPUDeviceTensor_setitem (to_storage ext) key (?clipped val1) self = Inr self'"
    and a: "amax_absolute (?clipped val1) = Inr a"
    and tr': "tr' = FlexEntry_manage_after_computation ext (device_buffer_flex_entry self) (py_int a)
                   (autoflex_count (flex_manager tr1)) tr1"
    unfolding tr1_def[symmetric] b1 sc1 by blast
  have cnt: "autoflex_count (flex_manager tr1) = autoflex_count (flex_manager tr)"
    by (simp add: tr1_def FlexEntry_manage_before_computation_def)
  have s_nz: "scale e1 \<noteq> 0"
    using div by (auto simp: py_truediv_def split: if_splits)
  have el1: "pyvalue_elems val1 = map (\<lambda>v. v / scale e1) (pyvalue_elems val)"
    by (rule elems_truediv[OF s_nz div])
  have shape: "pyvalue_elems (?clipped val1) =
                map (\<lambda>v. max (- (2 ^ nat b)) (min (2 ^ nat b - 1) (v / scale e1))) (pyvalue_elems val)"
    if "0 \<le> b"
  proof -
    have pw: "py_pow2 b = 2 ^ nat b" using that by (simp add: py_pow2_def)
    have "pyvalue_elems (?clipped val1) =
            map (\<lambda>v. max (- py_pow2 b) (min (py_pow2 b - 1) v)) (pyvalue_elems val1)"
      using py_pow2_ge_one[OF that] by (intro clip_elems) auto
    then show ?thesis by (simp add: el1 pw comp_def)
  qed
  from amax_absolute_mem[OF a] obtain c where
    c: "c \<in> set (pyvalue_elems (?clipped val1))" and ac: "a = \<bar>c\<bar>"
    by blast
  have upper: "\<forall>c\<in>set (pyvalue_elems (?clipped val1)). \<bar>c\<bar> \<le> a"
    by (rule amax_absolute_upper[OF a])
  have a0: "0 \<le> a" by (simp add: ac)
  have fl: "0 \<le> py_int a \<and> real_of_int (py_int a) \<le> a \<and> a < real_of_int (py_int a) + 1"
    by (rule py_int_floor[OF a0])
  have bound: "real_of_int (py_int a) \<le> py_pow2 b"
    unfolding ac using py_int_abs_le[OF clip_abs_le[OF c]] by blast
  have tr_eq: "trace tr' = trace tr @ [EntryManageBefore r val,
                     EntryManageAfter r (py_int a) (autoflex_count (flex_manager tr))]"
    by (simp add: tr' cnt tr1_def r FlexEntry_manage_after_computation_def
        FlexEntry_manage_before_computation_def)
  have ent: "tensor_flex_entry self tr' =
               entry_manage_after_computation ext (py_int a) (autoflex_count (flex_manager tr)) e1"
    by (simp add: tr' tensor_flex_entry_after ent1 cnt)
  have ex: "\<exists>c\<in>set (pyvalue_elems (?clipped val1)). a = \<bar>c\<bar>" using c ac by blast
  show ?thesis
    using div store shape ex upper fl bound tr_eq ent
    by (intro exI[of _ val1] exI[of _ a] exI[of _ "py_int a"]) blast
qed

theorem setitem_reported_maxabs_witness:
  "FlexGPUDeviceTensor_setitem idle_external [0, 1] (NdArray [- 70000, 5]) demo_tensor
       demo_transformer =
     Inr (demo_tensor\<lparr>device_data := [- 32768, 5]\<rparr>,
          demo_transformer\<lparr>trace := [EntryManageBefore 0 (NdArray [- 70000, 5]),
                                      EntryManageAfter 0 32768 0]\<rparr>) \<and>
   (\<exists>a m. (\<exists>c\<in>set [- 32768, 5]. a = \<bar>c\<bar>) \<and> (\<forall>c\<in>set [- 32768, 5 :: real]. \<bar>c\<bar> \<le> a) \<and>
          0 \<le> m \<and> real_of_int m \<le> a \<and> a < real_of_int m + 1 \<and>
          real_of_int m \<le> 2 ^ 15 \<and> m = 32768)"
proof -
  let ?tr' = "demo_transformer\<lparr>trace := [EntryManageBefore 0 (NdArray [- 70000, 5]),
                                      EntryManageAfter 0 32768 0]\<rparr>"
  let ?e1 = "entry_manage_before_computation idle_external (NdArray [- 70000, 5])
               (tensor_flex_entry demo_tensor demo_transformer)"
  have run: "FlexGPUDeviceTensor_setitem idle_external [0, 1] (NdArray [- 70000, 5]) demo_tensor
       demo_transformer = Inr (demo_tensor\<lparr>device_data := [- 32768, 5]\<rparr>, ?tr')"
    by (simp add: demo_defs setitem_defs Let_def fun_eq_iff)
  have r: "0 = device_buffer_flex_entry demo_tensor" by (simp add: demo_tensor_def)
  have b: "15 = storage_bits (dtype ?e1) - 1"
    by (simp add: demo_defs tensor_flex_entry_def)
  have s: "scale ?e1 = 1"
    by (simp add: demo_defs tensor_flex_entry_def)
  from setitem_reported_maxabs[OF run r refl b] obtain val1 a m where
    shape: "0 \<le> (15::int) \<longrightarrow>
              pyvalue_elems (clip (- py_pow2 15) (py_pow2 15 - 1) val1) =
                map (\<lambda>v. max (- (2 ^ nat 15)) (min (2 ^ nat 15 - 1) (v / scale ?e1)))
                  (pyvalue_elems (NdArray [- 70000, 5]))"
    and ex: "\<exists>c\<in>set (pyvalue_elems (clip (- py_pow2 15) (py_pow2 15 - 1) val1)). a = \<bar>c\<bar>"
    and upper: "\<forall>c\<in>set (pyvalue_elems (clip (- py_pow2 15) (py_pow2 15 - 1) val1)). \<bar>c\<bar> \<le> a"
    and m: "0 \<le> m" "real_of_int m \<le> a" "a < real_of_int m + 1" "real_of_int m \<le> py_pow2 15"
    and t: "trace ?tr' = trace demo_transformer @ [EntryManageBefore 0 (NdArray [- 70000, 5]),
                         EntryManageAfter 0 m (autoflex_count (flex_manager demo_transformer))]"
    by blast
  have el: "pyvalue_elems (clip (- py_pow2 15) (py_pow2 15 - 1) val1) = [- 32768, 5]"
    using shape by (simp add: s pyvalue_elems_def)
  have m_eq: "m = 32768" using t by (simp add: demo_defs)
  have "(\<exists>c\<in>set [- 32768, 5]. a = \<bar>c\<bar>) \<and> (\<forall>c\<in>set [- 32768, 5 :: real]. \<bar>c\<bar> \<le> a)"
    using ex upper unfolding el by blast
  moreover have "real_of_int m \<le> 2 ^ 15" using m(4) by (simp add: py_pow2_def)
  ultimately show ?thesis using run m m_eq by blast
qed




subsection \<open>Auxiliary facts about kernel groups\<close>

lemma call_kernels_trace:
  assumes "GPUKernelGroup_call ext ks tr = Inr (ks', tr')"
  shows "trace tr' = trace tr @ concat (map (\<lambda>k. [ManageBefore (kernel_name k), BindFlexScales (kernel_name k),
            Execute (kernel_name k), ManageAfter (kernel_name k)]) ks)"
  using assms
proof (induction ks arbitrary: tr ks')
  case Nil
  then show ?case by simp
next
  case (Cons k ks)
  from Cons.prems obtain k1 tr1 tr2 ks1 where
    su: "setup_kernel_execute ext k tr = Inr (k1, tr1)"
    and af: "after_kernel_execute ext k1 (kernel_execute ext k1 tr1) = Inr tr2"
    and rest: "GPUKernelGroup_call ext ks tr2 = Inr (ks1, tr')"
    by (auto split: sum.splits)
  have name: "kernel_name k1 = kernel_name k"
    using su
    by (auto simp: setup_kernel_execute_def bind_flex_scales_def ew_bind_flex_scales_def
        split: sum.splits if_splits option.splits)
  have t1: "trace tr1 = trace tr @ [ManageBefore (kernel_name k), BindFlexScales (kernel_name k)]"
    using su
    by (auto simp: setup_kernel_execute_def GPUFlexManager_manage_before_computation_def
        split: sum.splits if_splits)
  have t2: "trace tr2 = trace tr1 @ [Execute (kernel_name k), ManageAfter (kernel_name k)]"
    using af
    by (auto simp: after_kernel_execute_def GPUFlexManager_manage_after_computation_def
        kernel_execute_def name split: if_splits)
  show ?case using Cons.IH[OF rest] by (simp add: t1 t2)
qed

lemma call_kernels_count:
  assumes keep_before: "\<And>k m. autoflex_count (manage_before_computation ext k m) = autoflex_count m"
    and keep_after: "\<And>k m. autoflex_count (manage_after_computation ext k m) = autoflex_count m"
    and exec: "\<And>k m. autoflex_count (execute ext k m) = autoflex_count m"
    and run: "GPUKernelGroup_call ext ks tr = Inr (ks', tr')"
  shows "autoflex_count (flex_manager tr') = autoflex_count (flex_manager tr)"
  using run
proof (induction ks arbitrary: tr ks')
  case Nil
  then show ?case by simp
next
  case (Cons k ks)
  from Cons.prems obtain k1 tr1 tr2 ks1 where
    su: "setup_kernel_execute ext k tr = Inr (k1, tr1)"
    and aft: "after_kernel_execute ext k1 (kernel_execute ext k1 tr1) = Inr tr2"
    and rest: "GPUKernelGroup_call ext ks tr2 = Inr (ks1, tr')"
    by (auto split: sum.splits)
  have c1: "autoflex_count (flex_manager tr1) = autoflex_count (flex_manager tr)"
    using su
    by (auto simp: setup_kernel_execute_def GPUFlexManager_manage_before_computation_def keep_before
        split: sum.splits if_splits)
  have c2: "autoflex_count (flex_manager tr2) = autoflex_count (flex_manager tr1)"
    using aft
    by (auto simp: after_kernel_execute_def GPUFlexManager_manage_after_computation_def
        kernel_execute_def keep_after exec split: if_splits)
  show ?case using Cons.IH[OF rest] by (simp add: c1 c2)
qed

lemma scale_info_from_mem:
  "(i, d) \<in> set (scale_info_from n ps) \<longleftrightarrow> n \<le> i \<and> i - n < length ps \<and> ps ! (i - n) = FlexScaleParam d"
proof (induction ps arbitrary: n)
  case Nil
  then show ?case by simp
next
  case (Cons p ps)
  show ?case
  proof (cases "i = n")
    case True
    then show ?thesis using Cons.IH[of "Suc n"] by (auto split: param.splits)
  next
    case False
    have "(i, d) \<in> set (scale_info_from n (p # ps)) \<longleftrightarrow> (i, d) \<in> set (scale_info_from (Suc n) ps)"
      using False by (auto split: param.splits)
    also have "\<dots> \<longleftrightarrow> Suc n \<le> i \<and> i - Suc n < length ps \<and> ps ! (i - Suc n) = FlexScaleParam d"
      by (rule Cons.IH)
    also have "\<dots> \<longleftrightarrow> n \<le> i \<and> i - n < length (p # ps) \<and> (p # ps) ! (i - n) = FlexScaleParam d"
    proof (cases "n < i")
      case True
      then obtain j where j: "i - n = Suc j" by (metis Suc_diff_Suc)
      then have "i - Suc n = j" by simp
      then show ?thesis using True j by auto
    next
      case False
      then show ?thesis using \<open>i \<noteq> n\<close> by auto
    qed
    finally show ?thesis .
  qed
qed

lemma scale_info_from_fst_ge: "i \<in> set (map fst (scale_info_from n ps)) \<Longrightarrow> n \<le> i"
  using scale_info_from_mem by fastforce

lemma scale_info_from_distinct: "distinct (map fst (scale_info_from n ps))"
proof (induction ps arbitrary: n)
  case Nil
  then show ?case by simp
next
  case (Cons p ps)
  have "n \<notin> set (map fst (scale_info_from (Suc n) ps))"
    using scale_info_from_fst_ge[of n "Suc n" ps] by auto
  then show ?case using Cons.IH[of "Suc n"] by (cases p) auto
qed

lemma ew_bind_loop_result:
  assumes "distinct (map fst info)"
    and "\<forall>(i, d)\<in>set info. i < length ps"
    and "\<forall>(i, d)\<in>set info. is_output d \<longrightarrow> scale (es (flex_entry d)) \<noteq> 0"
  shows "\<exists>ps'. ew_bind_loop es info ps = Inr ps' \<and> length ps' = length ps \<and>
           (\<forall>(i, d)\<in>set info. ps' ! i = FloatParam (bound_scale es d)) \<and>
           (\<forall>j. j \<notin> fst ` set info \<longrightarrow> ps' ! j = ps ! j)"
  using assms
proof (induction info arbitrary: ps)
  case Nil
  then show ?case by simp
next
  case (Cons a info)
  obtain i d where a: "a = (i, d)" by (cases a)
  define ps1 where "ps1 = ps[i := FloatParam (bound_scale es d)]"
  have i_len: "i < length ps" using Cons.prems(2) a by simp
  have nz: "\<not> (is_output d \<and> scale (es (flex_entry d)) = 0)" using Cons.prems(3) a by simp
  have step: "ew_bind_loop es (a # info) ps = ew_bind_loop es info ps1"
    using i_len nz by (auto simp: a ps1_def bound_scale_def Let_def)
  have d': "distinct (map fst info)" using Cons.prems(1) by simp
  have l': "\<forall>(i, d)\<in>set info. i < length ps1" using Cons.prems(2) by (simp add: ps1_def)
  have z': "\<forall>(i, d)\<in>set info. is_output d \<longrightarrow> scale (es (flex_entry d)) \<noteq> 0"
    using Cons.prems(3) by simp
  from Cons.IH[OF d' l' z'] obtain ps' where
    r: "ew_bind_loop es info ps1 = Inr ps'" and len: "length ps' = length ps1"
    and bound: "\<forall>(i, d)\<in>set info. ps' ! i = FloatParam (bound_scale es d)"
    and other: "\<forall>j. j \<notin> fst ` set info \<longrightarrow> ps' ! j = ps1 ! j"
    by blast
  have i_notin: "i \<notin> fst ` set info" using Cons.prems(1) a by auto
  have "ps' ! i = FloatParam (bound_scale es d)"
    using other i_notin i_len by (simp add: ps1_def)
  moreover have "\<forall>j. j \<notin> fst ` set (a # info) \<longrightarrow> ps' ! j = ps ! j"
    using other by (auto simp: a ps1_def)
  moreover have "ew_bind_loop es (a # info) ps = Inr ps'" using step r by simp
  moreover have "length ps' = length ps" using len by (simp add: ps1_def)
  ultimately show ?case using bound by (intro exI[of _ ps']) (simp add: a del: ew_bind_loop.simps)
qed

lemma kernel_output_ids_set:
  "set (kernel_output_ids es ps) = {flex_id (es (flex_entry d)) | d. FlexScaleParam d \<in> set ps \<and> is_output d}"
proof (induction ps)
  case Nil
  then show ?case by simp
next
  case (Cons p ps)
  show ?case by (cases p) (auto simp: Cons.IH)
qed

lemma create_output_flex_ids_loop_result:
  assumes "create_output_flex_ids_loop es ks = Inr (ks', ids)"
  shows "ids = concat (map (\<lambda>k. case output_flex_ids k of Some l \<Rightarrow> l | None \<Rightarrow> []) ks') \<and>
         (\<forall>k\<in>set ks'. kernel_ok es k)"
  using assms
proof (induction ks arbitrary: ks' ids)
  case Nil
  then show ?case by simp
next
  case (Cons k ks)
  define k1 where "k1 = (if kernel_class k = ElementWiseKernel
                then k\<lparr>output_flex_ids := Some (kernel_output_ids es (params k))\<rparr>
                else if kernel_class k \<in> set non_flex_kernels
                then k\<lparr>output_flex_ids := Some []\<rparr>
                else k)"
  from Cons.prems obtain l ks1 ids1 where
    l: "output_flex_ids k1 = Some l"
    and rest: "create_output_flex_ids_loop es ks = Inr (ks1, ids1)"
    and res: "ks' = k1 # ks1" "ids = l @ ids1"
    by (auto simp: k1_def[symmetric] Let_def split: option.splits sum.splits)
  have ok: "kernel_ok es k1"
    using l by (auto simp: kernel_ok_def k1_def non_flex_kernels_def split: if_splits)
  show ?case using Cons.IH[OF rest] ok l by (simp add: res)
qed

lemma set_concat_option:
  "set (concat (map (\<lambda>k. case f k of Some l \<Rightarrow> l | None \<Rightarrow> []) ks)) =
     (\<Union>k\<in>set ks. case f k of Some l \<Rightarrow> set l | None \<Rightarrow> {})"
proof (induction ks)
  case Nil
  then show ?case by simp
next
  case (Cons k ks)
  then show ?case by (cases "f k") simp_all
qed

lemma demo_compile_all:
  "compile_all idle_external demo_group demo_transformer = Inr compiled_demo_group"
  by (simp add: demo_defs compile_defs)

subsection \<open>Claims about kernel groups\<close>

text \<open>
  Claim C3. A call of \<open>FlexGPUKernelGroup.__call__\<close> that returns leaves
  \<open>autoflex_count\<close> larger by exactly 2, whatever kernels the group holds; the hooks of
  the manager, the diagnostic sink and the kernels themselves do not touch the counter.
\<close>

theorem call_advances_autoflex_count_by_two:
  assumes keep_before: "\<And>k m. autoflex_count (manage_before_computation ext k m) = autoflex_count m"
    and keep_after: "\<And>k m. autoflex_count (manage_after_computation ext k m) = autoflex_count m"
    and exec: "\<And>k m. autoflex_count (execute ext k m) = autoflex_count m"
    and diag: "\<And>m. autoflex_count (save_diagnostic_data ext m) = autoflex_count m"
    and run: "FlexGPUKernelGroup_call ext self tr = Inr (self', tr')"
  shows "autoflex_count (flex_manager tr') = autoflex_count (flex_manager tr) + 2"
proof -
  define tr3 where "tr3 = GPUFlexManager_save_diagnostic_data ext
                            (advance_autoflex_count (advance_autoflex_count tr))"
  from run obtain ks where loop: "GPUKernelGroup_call ext (kernels self) tr3 = Inr (ks, tr')"
    by (auto simp: FlexGPUKernelGroup_call_def Let_def tr3_def split: sum.splits)
  have "autoflex_count (flex_manager tr3) = autoflex_count (flex_manager tr) + 2"
    by (simp add: tr3_def GPUFlexManager_save_diagnostic_data_def advance_autoflex_count_def diag)
  then show ?thesis
    using call_kernels_count[OF keep_before keep_after exec loop] by simp
qed

theorem call_advances_autoflex_count_by_two_witness:
  "\<exists>g tr. FlexGPUKernelGroup_call idle_external compiled_demo_group demo_transformer = Inr (g, tr) \<and>
     length (kernels compiled_demo_group) = 2 \<and>
     autoflex_count (flex_manager tr) = autoflex_count (flex_manager demo_transformer) + 2"
proof -
  have "\<exists>g tr. FlexGPUKernelGroup_call idle_external compiled_demo_group demo_transformer = Inr (g, tr)"
    by (simp add: demo_defs call_defs Let_def)
  then obtain g tr where
    run: "FlexGPUKernelGroup_call idle_external compiled_demo_group demo_transformer = Inr (g, tr)"
    by blast
  have kb: "\<And>k m. autoflex_count (manage_before_computation idle_external k m) = autoflex_count m"
    by (simp add: idle_external_def)
  have ka: "\<And>k m. autoflex_count (manage_after_computation idle_external k m) = autoflex_count m"
    by (simp add: idle_external_def)
  have ex: "\<And>k m. autoflex_count (execute idle_external k m) = autoflex_count m"
    by (simp add: idle_external_def)
  have dg: "\<And>m. autoflex_count (save_diagnostic_data idle_external m) = autoflex_count m"
    by (simp add: idle_external_def)
  have two: "length (kernels compiled_demo_group) = 2"
    by (simp add: compiled_demo_group_def)
  from call_advances_autoflex_count_by_two[OF kb ka ex dg run] run two
  show ?thesis by blast
qed

text \<open>
  Claim C4. For an element-wise kernel whose \<open>flex_scale_info\<close> was recorded from the
  parameter list \<open>ps0\<close>, \<open>bind_flex_scales\<close> returns, and every slot that held a
  \<open>FlexScaleDescription\<close> in \<open>ps0\<close> then holds the scale of the descriptor's entry when
  \<open>is_output\<close> is false and the reciprocal \<open>1.0 / scale\<close> when it is true. No output
  entry has scale 0 (the division would raise), and \<open>bind_ptr\<close> leaves floats alone.
\<close>

theorem bind_flex_scales_rule:
  assumes cls: "kernel_class k = ElementWiseKernel"
    and info: "flex_scale_info k = Some (scale_info_from 0 ps0)"
    and len: "length (params k) = length ps0"
    and nz: "\<forall>i d. i < length ps0 \<and> ps0 ! i = FlexScaleParam d \<and> is_output d
               \<longrightarrow> scale (entries m (flex_entry d)) \<noteq> 0"
    and ptr: "\<And>ps i x. i < length ps \<Longrightarrow> ps ! i = FloatParam x \<Longrightarrow> bind_ptr ext ps ! i = FloatParam x"
  shows "\<exists>k'. bind_flex_scales ext k m = Inr k' \<and>
           (\<forall>i d. i < length ps0 \<and> ps0 ! i = FlexScaleParam d \<longrightarrow>
              params k' ! i = FloatParam (if is_output d then 1 / scale (entries m (flex_entry d))
                                         else scale (entries m (flex_entry d))))"
proof -
  let ?info = "scale_info_from 0 ps0"
  have a2: "\<forall>(i, d)\<in>set ?info. i < length (params k)"
    using len by (auto simp: scale_info_from_mem)
  have a3: "\<forall>(i, d)\<in>set ?info. is_output d \<longrightarrow> scale (entries m (flex_entry d)) \<noteq> 0"
    using nz by (auto simp: scale_info_from_mem)
  from ew_bind_loop_result[OF scale_info_from_distinct a2 a3] obtain ps' where
    r: "ew_bind_loop (entries m) ?info (params k) = Inr ps'" and l: "length ps' = length (params k)"
    and bound: "\<forall>(i, d)\<in>set ?info. ps' ! i = FloatParam (bound_scale (entries m) d)"
    by blast
  have run: "bind_flex_scales ext k m = Inr (k\<lparr>params := bind_ptr ext ps'\<rparr>)"
    by (simp add: bind_flex_scales_def ew_bind_flex_scales_def cls info r)
  have "params (k\<lparr>params := bind_ptr ext ps'\<rparr>) ! i = FloatParam (bound_scale (entries m) d)"
    if "i < length ps0" "ps0 ! i = FlexScaleParam d" for i d
  proof -
    have "(i, d) \<in> set ?info" using that by (simp add: scale_info_from_mem)
    then have "ps' ! i = FloatParam (bound_scale (entries m) d)" using bound by blast
    moreover have "i < length ps'" using that(1) l len by simp
    ultimately show ?thesis using ptr by simp
  qed
  then show ?thesis using run by (auto simp: bound_scale_def)
qed

theorem bind_flex_scales_rule_witness:
  "\<exists>k'. bind_flex_scales idle_external (hd (kernels compiled_demo_group))
            (flex_manager demo_transformer) = Inr k' \<and>
     params k' ! 0 = FloatParam 1 \<and> params k' ! 2 = FloatParam (1 / 2)"
proof -
  let ?k = "hd (kernels compiled_demo_group)"
  let ?m = "flex_manager demo_transformer"
  have cls: "kernel_class ?k = ElementWiseKernel"
    by (simp add: demo_defs)
  have info: "flex_scale_info ?k = Some (scale_info_from 0 (params demo_ew_kernel))"
    by (simp add: demo_defs)
  have len: "length (params ?k) = length (params demo_ew_kernel)"
    by (simp add: demo_defs)
  have nz: "\<forall>i d. i < length (params demo_ew_kernel) \<and>
              params demo_ew_kernel ! i = FlexScaleParam d \<and> is_output d
               \<longrightarrow> scale (entries ?m (flex_entry d)) \<noteq> 0"
    by (simp add: demo_defs)
  have ptr: "\<And>ps i x. i < length ps \<Longrightarrow> ps ! i = FloatParam x \<Longrightarrow>
               bind_ptr idle_external ps ! i = FloatParam x"
    by (simp add: idle_external_def)
  from bind_flex_scales_rule[OF cls info len nz ptr] obtain k' where
    run: "bind_flex_scales idle_external ?k ?m = Inr k'"
    and slots: "\<forall>i d. i < length (params demo_ew_kernel) \<and>
              params demo_ew_kernel ! i = FlexScaleParam d \<longrightarrow>
              params k' ! i = FloatParam (if is_output d then 1 / scale (entries ?m (flex_entry d))
                                         else scale (entries ?m (flex_entry d)))"
    by blast
  have "params k' ! 0 = FloatParam 1"
    using slots[rule_format, of 0 "\<lparr>flex_entry = 0, is_output = False\<rparr>"]
    by (simp add: demo_defs)
  moreover have "params k' ! 2 = FloatParam (1 / 2)"
    using slots[rule_format, of 2 "\<lparr>flex_entry = 1, is_output = True\<rparr>"]
    by (simp add: demo_defs)
  ultimately show ?thesis using run by blast
qed

text \<open>
  Claim C5. After a \<open>compile_all\<close> that returns, the group's \<open>output_flex_ids\<close> is the
  concatenation, hence as a set the union, of the \<open>output_flex_ids\<close> of its kernels;
  an \<open>ElementWiseKernel\<close> has the flex ids of its parameters that are a
  \<open>FlexScaleDescription\<close> with \<open>is_output\<close> true, and a kernel of \<open>non_flex_kernels\<close>
  (\<open>DimShuffleKernel\<close>) has the empty list.
\<close>

theorem compile_all_output_flex_ids:
  assumes "compile_all ext self tr = Inr self'"
  shows "\<exists>ids. group_output_flex_ids self' = Some ids \<and>
           ids = concat (map (\<lambda>k. case output_flex_ids k of Some l \<Rightarrow> l | None \<Rightarrow> []) (kernels self')) \<and>
           set ids = (\<Union>k\<in>set (kernels self'). case output_flex_ids k of Some l \<Rightarrow> set l | None \<Rightarrow> {}) \<and>
           (\<forall>k\<in>set (kernels self').
              output_flex_ids k \<noteq> None \<and>
              (kernel_class k = ElementWiseKernel \<longrightarrow>
                 output_flex_ids k = Some (kernel_output_ids (entries (flex_manager tr)) (params k)) \<and>
                 (case output_flex_ids k of Some l \<Rightarrow> set l | None \<Rightarrow> {}) =
                   {flex_id (entries (flex_manager tr) (flex_entry d)) | d.
                      FlexScaleParam d \<in> set (params k) \<and> is_output d}) \<and>
              (kernel_class k \<in> set non_flex_kernels \<longrightarrow> output_flex_ids k = Some []))"
proof -
  let ?es = "entries (flex_manager tr)"
  let ?f = "\<lambda>k. if kernel_class k = ElementWiseKernel
                               then k\<lparr>flex_scale_info := Some (scale_info_from 0 (params k))\<rparr>
                               else k"
  from assms obtain ks ids where
    loop: "create_output_flex_ids_loop ?es (kernels (base_compile_all ext self)) = Inr (ks, ids)"
    and self': "self' = create_ew_flex_scale_info
                  ((base_compile_all ext self)\<lparr>kernels := ks, group_output_flex_ids := Some ids\<rparr>)"
    by (auto simp: compile_all_def create_output_flex_ids_def split: sum.splits)
  have ks': "kernels self' = map ?f ks" and g: "group_output_flex_ids self' = Some ids"
    by (simp_all add: self' create_ew_flex_scale_info_def)
  from create_output_flex_ids_loop_result[OF loop]
  have ids: "ids = concat (map (\<lambda>k. case output_flex_ids k of Some l \<Rightarrow> l | None \<Rightarrow> []) ks)"
    and ok: "\<forall>k\<in>set ks. kernel_ok ?es k" by blast+
  have out: "output_flex_ids (?f k) = output_flex_ids k" for k by simp
  have comp: "(\<lambda>k. case output_flex_ids k of Some l \<Rightarrow> l | None \<Rightarrow> []) \<circ> ?f =
        (\<lambda>k. case output_flex_ids k of Some l \<Rightarrow> l | None \<Rightarrow> [])"
    by (rule ext) simp
  have ids': "ids = concat (map (\<lambda>k. case output_flex_ids k of Some l \<Rightarrow> l | None \<Rightarrow> []) (kernels self'))"
    by (simp only: ids ks' map_map comp)
  have union: "set ids = (\<Union>k\<in>set (kernels self'). case output_flex_ids k of Some l \<Rightarrow> set l | None \<Rightarrow> {})"
    unfolding ids' by (rule set_concat_option)
  have ok': "kernel_ok ?es k" if "k \<in> set (kernels self')" for k
  proof -
    from that obtain k0 where k0: "k0 \<in> set ks" "k = ?f k0" by (auto simp: ks')
    then have "kernel_ok ?es k0" using ok by blast
    then show ?thesis using k0(2) by (auto simp: kernel_ok_def)
  qed
  have each: "\<forall>k\<in>set (kernels self').
              output_flex_ids k \<noteq> None \<and>
              (kernel_class k = ElementWiseKernel \<longrightarrow>
                 output_flex_ids k = Some (kernel_output_ids ?es (params k)) \<and>
                 (case output_flex_ids k of Some l \<Rightarrow> set l | None \<Rightarrow> {}) =
                   {flex_id (?es (flex_entry d)) | d. FlexScaleParam d \<in> set (params k) \<and> is_output d}) \<and>
              (kernel_class k \<in> set non_flex_kernels \<longrightarrow> output_flex_ids k = Some [])"
  proof
    fix k assume "k \<in> set (kernels self')"
    from ok'[OF this] show "output_flex_ids k \<noteq> None \<and>
              (kernel_class k = ElementWiseKernel \<longrightarrow>
                 output_flex_ids k = Some (kernel_output_ids ?es (params k)) \<and>
                 (case output_flex_ids k of Some l \<Rightarrow> set l | None \<Rightarrow> {}) =
                   {flex_id (?es (flex_entry d)) | d. FlexScaleParam d \<in> set (params k) \<and> is_output d}) \<and>
              (kernel_class k \<in> set non_flex_kernels \<longrightarrow> output_flex_ids k = Some [])"
      by (auto simp: kernel_ok_def kernel_output_ids_set)
  qed
  show ?thesis using g ids' union each by blast
qed

theorem compile_all_output_flex_ids_witness:
  "compile_all idle_external demo_group demo_transformer = Inr compiled_demo_group \<and>
   (\<exists>ids. group_output_flex_ids compiled_demo_group = Some ids \<and> ids = [1] \<and>
      set ids = (\<Union>k\<in>set (kernels compiled_demo_group).
                   case output_flex_ids k of Some l \<Rightarrow> set l | None \<Rightarrow> {}))"
proof -
  from compile_all_output_flex_ids[OF demo_compile_all] obtain ids where
    "group_output_flex_ids compiled_demo_group = Some ids"
    "set ids = (\<Union>k\<in>set (kernels compiled_demo_group).
                   case output_flex_ids k of Some l \<Rightarrow> set l | None \<Rightarrow> {})"
    by blast
  moreover from this(1) have "ids = [1]" by (simp add: compiled_demo_group_def)
  ultimately show ?thesis using demo_compile_all by blast
qed

text \<open>
  Claim C6, as amended. A call of a kernel group that returns advances the autoflex
  counter twice, then calls \<open>save_diagnostic_data()\<close>, and then, for each kernel in
  compiled order, \<open>manage_before_computation\<close>, \<open>bind_flex_scales\<close>, the kernel's
  execution and \<open>manage_after_computation\<close>, in this order. The diagnostic persistence
  comes before the first kernel of the call, not after the magnitude capture.
\<close>

theorem call_order:
  assumes run: "FlexGPUKernelGroup_call ext self tr = Inr (self', tr')"
  shows "trace tr' = trace tr @ [AdvanceAutoflexCount, AdvanceAutoflexCount, SaveDiagnosticData] @
           concat (map (\<lambda>k. [ManageBefore (kernel_name k), BindFlexScales (kernel_name k),
                               Execute (kernel_name k), ManageAfter (kernel_name k)]) (kernels self))"
proof -
  define tr3 where "tr3 = GPUFlexManager_save_diagnostic_data ext
                            (advance_autoflex_count (advance_autoflex_count tr))"
  from run obtain ks where loop: "GPUKernelGroup_call ext (kernels self) tr3 = Inr (ks, tr')"
    by (auto simp: FlexGPUKernelGroup_call_def Let_def tr3_def split: sum.splits)
  have "trace tr3 = trace tr @ [AdvanceAutoflexCount, AdvanceAutoflexCount, SaveDiagnosticData]"
    by (simp add: tr3_def GPUFlexManager_save_diagnostic_data_def advance_autoflex_count_def)
  then show ?thesis using call_kernels_trace[OF loop] by simp
qed

text \<open>
  In a call of the compiled group of two kernels the diagnostic persistence is the third
  event of the trace, before every \<open>manage_after_computation\<close>, and the last event is
  the \<open>manage_after_computation\<close> of the last kernel: the persistence is not the last
  step of the call.
\<close>

theorem call_order_counterexample:
  "FlexGPUKernelGroup_call idle_external compiled_demo_group demo_transformer =
     Inr (compiled_demo_group\<lparr>kernels :=
            [(hd (kernels compiled_demo_group))\<lparr>params :=
                [FloatParam 1, OtherParam ''n'', FloatParam (1 / 2), FlexPtrParam 1]\<rparr>,
             last (kernels compiled_demo_group)]\<rparr>,
          demo_transformer\<lparr>
            flex_manager := (flex_manager demo_transformer)\<lparr>autoflex_count := 2\<rparr>,
            trace := [AdvanceAutoflexCount, AdvanceAutoflexCount, SaveDiagnosticData,
              ManageBefore ''ew'', BindFlexScales ''ew'', Execute ''ew'', ManageAfter ''ew'',
              ManageBefore ''dimshuffle'', BindFlexScales ''dimshuffle'', Execute ''dimshuffle'',
              ManageAfter ''dimshuffle'']\<rparr>) \<and>
   last [AdvanceAutoflexCount, AdvanceAutoflexCount, SaveDiagnosticData,
         ManageBefore ''ew'', BindFlexScales ''ew'', Execute ''ew'', ManageAfter ''ew'',
         ManageBefore ''dimshuffle'', BindFlexScales ''dimshuffle'', Execute ''dimshuffle'',
         ManageAfter ''dimshuffle''] \<noteq> SaveDiagnosticData"
  by (simp add: demo_defs call_defs Let_def)

theorem call_order_witness:
  "\<exists>g tr. FlexGPUKernelGroup_call idle_external compiled_demo_group demo_transformer = Inr (g, tr) \<and>
     trace tr = trace demo_transformer @
        [AdvanceAutoflexCount, AdvanceAutoflexCount, SaveDiagnosticData] @
        concat (map (\<lambda>k. [ManageBefore (kernel_name k), BindFlexScales (kernel_name k),
                            Execute (kernel_name k), ManageAfter (kernel_name k)])
                  (kernels compiled_demo_group))"
proof -
  have "\<exists>g tr. FlexGPUKernelGroup_call idle_external compiled_demo_group demo_transformer = Inr (g, tr)"
    by (simp add: demo_defs call_defs Let_def)
  then obtain g tr where
    run: "FlexGPUKernelGroup_call idle_external compiled_demo_group demo_transformer = Inr (g, tr)"
    by blast
  from call_order[OF run] run show ?thesis by blast
qed


subsection \<open>Auxiliary facts about the life of a transformer\<close>








subsection \<open>Claims about FlexGPUTransformer\<close>




text \<open>
  Claim C8, as amended. \<open>storage_dtype\<close> raises \<open>NotImplementedError\<close> for every dtype
  that is not a \<open>GPUFlex\<close> instance and returns the storage dtype of one that is; the
  error is raised at once, with nothing retried. The constructor of the transformer
  looks at no dtype: it returns for all its arguments.
\<close>

theorem storage_dtype_rejects_other_dtypes:
  "FlexGPUTransformer_storage_dtype (OtherDtype n) = Inl NotImplementedError \<and>
   FlexGPUTransformer_storage_dtype (GPUFlex_dtype g) = Inr (storage_dtype g) \<and>
   (\<exists>t. FlexGPUTransformer_init ext fixed_point_arg flex_verbose kwargs = Inr t \<and>
        fixed_point t = fixed_point_arg \<and>
        graph_passes t = [ClearTensorDescriptions, FlexDtypePass])"
  by (simp add: FlexGPUTransformer_storage_dtype_def FlexGPUTransformer_init_def)

text \<open>
  Constructing the transformer while naming a dtype that is not a flex format succeeds;
  the error comes only from \<open>storage_dtype\<close>.
\<close>

theorem init_with_other_dtype_counterexample:
  "FlexGPUTransformer_init idle_external False False [(''dtype'', OtherDtype ''float32'')] =
     Inr fresh_transformer \<and>
   FlexGPUTransformer_storage_dtype (OtherDtype ''float32'') = Inl NotImplementedError"
  by (simp add: FlexGPUTransformer_storage_dtype_def FlexGPUTransformer_init_def
      fresh_transformer_def)


end
